theory Spec2Isabelle
  imports Main
begin

section \<open>Strings and exceptions of the Python source\<close>

text \<open>
  A Python \<^verbatim>\<open>str\<close> is a sequence of Unicode code points, and \<^verbatim>\<open>len\<close> counts code
  points.  A character is therefore modelled by its code point (what \<^verbatim>\<open>ord\<close> returns),
  and a string by the list of its code points.  \<open>py\<close> writes a literal.
\<close>

type_synonym pychar = nat
type_synonym pystr = "pychar list"

definition py :: "string \<Rightarrow> pystr" where
  "py cs = map of_char cs"

section \<open>lexer.py: the positioned error \<^verbatim>\<open>LexerError\<close>\<close>

text \<open>
  \<^verbatim>\<open>str.count(sub, start, end)\<close> and \<^verbatim>\<open>str.rfind(sub, start, end)\<close> read the
  slice \<^verbatim>\<open>s[start:end]\<close>: a negative bound counts from the end of the string and
  every bound is clamped into \<open>0 .. len(s)\<close>.  \<open>LexerError\<close> calls both with the
  one-character string \<^verbatim>\<open>'\\n'\<close>.
\<close>

definition slice_bound :: "nat \<Rightarrow> int \<Rightarrow> nat" where
  "slice_bound len k =
     (if k < 0 then (if int len + k < 0 then 0 else nat (int len + k))
      else if int len < k then len else nat k)"

definition str_count :: "pystr \<Rightarrow> pychar \<Rightarrow> int \<Rightarrow> int \<Rightarrow> int" where
  "str_count s c start stop =
     int (length (filter (\<lambda>j. s ! j = c) [slice_bound (length s) start ..< slice_bound (length s) stop]))"

definition str_rfind :: "pystr \<Rightarrow> pychar \<Rightarrow> int \<Rightarrow> int \<Rightarrow> int" where
  "str_rfind s c start stop =
     (case filter (\<lambda>j. s ! j = c) (rev [slice_bound (length s) start ..< slice_bound (length s) stop]) of
        [] \<Rightarrow> - 1
      | j # _ \<Rightarrow> int j)"

text \<open>The decimal text of an integer, as an f-string prints it.\<close>

fun str_nat :: "nat \<Rightarrow> string" where
  "str_nat n = (if n < 10 then [''0123456789'' ! n] else str_nat (n div 10) @ [''0123456789'' ! (n mod 10)])"

definition str_int :: "int \<Rightarrow> string" where
  "str_int k = (if k < 0 then CHR ''-'' # str_nat (nat (- k)) else str_nat (nat k))"

text \<open>
  The object \<^verbatim>\<open>LexerError.__init__\<close> builds: \<open>errmsg\<close> is the argument handed to
  \<^verbatim>\<open>ValueError.__init__\<close>, the other fields are the attributes it sets.  The
  message \<open>msg\<close> is kept as the text an f-string prints for it.
\<close>

record lexer_error =
  errmsg :: string
  msg :: string
  doc :: pystr
  pos :: int
  lineno :: int
  colno :: int

definition newline :: pychar where
  "newline = 10"

definition LexerError :: "string \<Rightarrow> pystr \<Rightarrow> int \<Rightarrow> lexer_error" where
  "LexerError m d p =
     (let l = str_count d newline 0 p + 1;
          c = p - str_rfind d newline 0 p
      in \<lparr>errmsg = m @ '': line '' @ str_int l @ '' column '' @ str_int c @ '' (char '' @ str_int p @ '')'',
          msg = m, doc = d, pos = p, lineno = l, colno = c\<rparr>)"

text \<open>\<^verbatim>\<open>__reduce__\<close> gives the class and the arguments to call it with again.\<close>

definition reduce :: "lexer_error \<Rightarrow> string \<times> pystr \<times> int" where
  "reduce e = (msg e, doc e, pos e)"

definition rebuild :: "string \<times> pystr \<times> int \<Rightarrow> lexer_error" where
  "rebuild a = (case a of (m, d, p) \<Rightarrow> LexerError m d p)"

text \<open>The exceptions the two modules raise.\<close>

datatype pyexn =
    Exception
  | ValueError string
  | NotImplementedError
  | TypeError
  | UnicodeError
  | IndexError
  | LexerErr lexer_error

section \<open>grammar.py\<close>

subsection \<open>The character sets\<close>

text \<open>\<^verbatim>\<open>grammar.char_allowed\<close>; \<open>hd char\<close> is \<^verbatim>\<open>ord(char)\<close> of a one-character string.\<close>

definition grammar_char_allowed :: "pystr \<Rightarrow> pyexn + bool" where
  "grammar_char_allowed char =
     (if length char \<noteq> 1 then Inl Exception
      else let oc = hd char in
        if oc > 255 \<or> (oc \<ge> 0 \<and> oc \<le> 8) \<or> oc = 11 \<or> (oc \<ge> 14 \<and> oc \<le> 31) \<or> (oc \<ge> 127 \<and> oc \<le> 159)
        then Inr False
        else Inr True)"

text \<open>
  \<^verbatim>\<open>char.encode(encoding='ascii')\<close> gives the bytes of the string when every code point
  is below 128 and raises \<^verbatim>\<open>UnicodeEncodeError\<close>, a \<^verbatim>\<open>UnicodeError\<close>, otherwise.
\<close>

definition encode_ascii :: "pystr \<Rightarrow> pyexn + nat list" where
  "encode_ascii u = (if list_all (\<lambda>c. c < 128) u then Inr u else Inl UnicodeError)"

text \<open>\<^verbatim>\<open>ODLgrammar.char_allowed\<close>; the \<^verbatim>\<open>except\<close> clause catches \<^verbatim>\<open>UnicodeError\<close> only.\<close>

definition ODLgrammar_char_allowed :: "pystr \<Rightarrow> pyexn + bool" where
  "ODLgrammar_char_allowed char =
     (if length char \<noteq> 1 then Inl Exception
      else case encode_ascii char of
             Inr _ \<Rightarrow> Inr True
           | Inl UnicodeError \<Rightarrow> Inr False
           | Inl e \<Rightarrow> Inl e)"

subsection \<open>Regular expressions\<close>

text \<open>
  The patterns of \<^verbatim>\<open>grammar.py\<close> use literal text, character classes, named groups,
  alternation, \<^verbatim>\<open>?\<close> and \<^verbatim>\<open>+\<close>.  A class is the list of its items as they are
  written between the brackets: a range \<^verbatim>\<open>a-b\<close> is the pair of its ends, a single
  character \<^verbatim>\<open>c\<close> the pair \<open>(c, c)\<close>.  Inside a class \<^verbatim>\<open>|\<close> is an ordinary
  character.
\<close>

datatype regex =
    Fail
  | Lit pystr
  | Class "(pychar \<times> pychar) list"
  | Seq regex regex
  | Alt regex regex
  | Opt regex
  | Plus regex
  | Star regex
  | Group string regex

definition rng :: "char \<Rightarrow> char \<Rightarrow> pychar \<times> pychar" where
  "rng a b = (of_char a, of_char b)"

definition one :: "char \<Rightarrow> pychar \<times> pychar" where
  "one a = (of_char a, of_char a)"

definition in_class :: "(pychar \<times> pychar) list \<Rightarrow> pychar \<Rightarrow> bool" where
  "in_class items c = list_ex (\<lambda>item. fst item \<le> c \<and> c \<le> snd item) items"

text \<open>Matching by derivatives: \<open>deriv c r\<close> matches what \<open>r\<close> matches after a leading \<open>c\<close>.\<close>

fun nullable :: "regex \<Rightarrow> bool" where
  "nullable Fail = False"
| "nullable (Lit u) = (u = [])"
| "nullable (Class items) = False"
| "nullable (Seq r1 r2) = (nullable r1 \<and> nullable r2)"
| "nullable (Alt r1 r2) = (nullable r1 \<or> nullable r2)"
| "nullable (Opt r) = True"
| "nullable (Plus r) = nullable r"
| "nullable (Star r) = True"
| "nullable (Group name r) = nullable r"

fun deriv :: "pychar \<Rightarrow> regex \<Rightarrow> regex" where
  "deriv c Fail = Fail"
| "deriv c (Lit []) = Fail"
| "deriv c (Lit (x # u)) = (if c = x then Lit u else Fail)"
| "deriv c (Class items) = (if in_class items c then Lit [] else Fail)"
| "deriv c (Seq r1 r2) =
     (if nullable r1 then Alt (Seq (deriv c r1) r2) (deriv c r2) else Seq (deriv c r1) r2)"
| "deriv c (Alt r1 r2) = Alt (deriv c r1) (deriv c r2)"
| "deriv c (Opt r) = deriv c r"
| "deriv c (Plus r) = Seq (deriv c r) (Star r)"
| "deriv c (Star r) = Seq (deriv c r) (Star r)"
| "deriv c (Group name r) = deriv c r"

fun derivs :: "pystr \<Rightarrow> regex \<Rightarrow> regex" where
  "derivs [] r = r"
| "derivs (c # u) r = derivs u (deriv c r)"

text \<open>\<^verbatim>\<open>pattern.fullmatch(u)\<close> finds a match exactly when the whole of \<open>u\<close> matches.\<close>

definition fullmatch :: "regex \<Rightarrow> pystr \<Rightarrow> bool" where
  "fullmatch r u = nullable (derivs u r)"

subsection \<open>The class \<^verbatim>\<open>grammar\<close> and its subclasses\<close>

text \<open>
  The attributes the lexer and the numeric patterns read.  A tuple of one-character
  strings is a list of strings, \<^verbatim>\<open>comments\<close> a list of pairs of strings.  The base
  class has no attribute \<^verbatim>\<open>nondecimal_re\<close>.
\<close>

record grammar =
  whitespace :: "pystr list"
  reserved_characters :: "pystr list"
  numeric_start_chars :: "pystr list"
  comments :: "(pystr \<times> pystr) list"
  nondecimal_pre_re :: regex
  binary_re :: regex
  octal_re :: regex
  hex_re :: regex
  nondecimal_re :: "regex option"

definition spacing_characters :: "pystr list" where
  "spacing_characters = [py '' '', [9]]"

definition format_effectors :: "pystr list" where
  "format_effectors = [[10], [13], [11], [12]]"

definition sign_re :: regex where
  "sign_re = Group ''sign'' (Opt (Class [one CHR ''+'', one CHR ''-'']))"

definition hex_digits :: regex where
  "hex_digits =
     Plus (Class [rng CHR ''0'' CHR ''9'', one CHR ''|'', rng CHR ''A'' CHR ''F'', one CHR ''|'',
                  rng CHR ''a'' CHR ''f''])"

definition pvl_grammar :: grammar where
  "pvl_grammar =
     \<lparr>whitespace = spacing_characters @ format_effectors,
      reserved_characters =
        map py [''&'', ''<'', ''>'', [CHR 0x27], ''{'', ''}'', '','',
                ''['', '']'', ''='', ''!'', ''#'', ''('', '')'',
                ''%'', ''+'', [CHR 0x22], '';'', ''~'', ''|''],
      numeric_start_chars = map py [''+'', ''-''],
      comments = [(py ''/*'', py ''*/'')],
      nondecimal_pre_re =
        Seq sign_re (Seq (Group ''radix'' (Alt (Lit (py ''2'')) (Alt (Lit (py ''8'')) (Lit (py ''16'')))))
          (Lit (py ''#''))),
      binary_re =
        Seq sign_re (Seq (Group ''radix'' (Lit (py ''2''))) (Seq (Lit (py ''#''))
          (Seq (Group ''non_decimal'' (Plus (Class [one CHR ''0'', one CHR ''1'']))) (Lit (py ''#''))))),
      octal_re =
        Seq sign_re (Seq (Group ''radix'' (Lit (py ''8''))) (Seq (Lit (py ''#''))
          (Seq (Group ''non_decimal'' (Plus (Class [rng CHR ''0'' CHR ''7'']))) (Lit (py ''#''))))),
      hex_re =
        Seq sign_re (Seq (Group ''radix'' (Lit (py ''16''))) (Seq (Lit (py ''#''))
          (Seq (Group ''non_decimal'' hex_digits) (Lit (py ''#''))))),
      nondecimal_re = None\<rparr>"

definition radix_2_16 :: regex where
  "radix_2_16 = Group ''radix'' (Alt (Class [rng CHR ''2'' CHR ''9''])
                                     (Seq (Lit (py ''1'')) (Class [rng CHR ''0'' CHR ''6''])))"

definition ODLgrammar :: grammar where
  "ODLgrammar =
     (let pre = Seq radix_2_16 (Seq (Lit (py ''#'')) sign_re)
      in pvl_grammar
           \<lparr>nondecimal_pre_re := pre,
            nondecimal_re := Some (Seq pre (Seq (Group ''non_decimal'' hex_digits) (Lit (py ''#''))))\<rparr>)"

definition Omnigrammar :: grammar where
  "Omnigrammar =
     (let second_sign = Group ''second_sign'' (Opt (Class [one CHR ''+'', one CHR ''-'']));
          pre = Seq sign_re (Seq radix_2_16 (Seq (Lit (py ''#'')) second_sign))
      in pvl_grammar
           \<lparr>comments := [(py ''/*'', py ''*/''), (py ''#'', [10])],
            nondecimal_pre_re := pre,
            nondecimal_re := Some (Seq pre (Seq (Group ''non_decimal'' hex_digits) (Lit (py ''#''))))\<rparr>)"

section \<open>lexer.py: the comment handlers\<close>

text \<open>
  The lexer threads the triple \<^verbatim>\<open>(lexeme, in_comment, end_comment)\<close> through every
  handler.  The current character is one code point; \<^verbatim>\<open>prev_char\<close> and
  \<^verbatim>\<open>next_char\<close> are \<open>None\<close> at the edges of the text.
\<close>

type_synonym lexstate = "pystr \<times> bool \<times> pystr option"

definition star :: pychar where
  "star = of_char CHR ''*''"

definition slash :: pychar where
  "slash = of_char CHR ''/''"

text \<open>
  The dictionary \<^verbatim>\<open>single_comments\<close> maps the opening character of a pair to
  the closing string.  It is an association list read with \<open>map_of\<close>, with the
  latest entry for a key in front.
\<close>

type_synonym single_dict = "(pychar \<times> pystr) list"

definition lex_singlechar_comments ::
  "pychar \<Rightarrow> pystr \<Rightarrow> bool \<Rightarrow> pystr option \<Rightarrow> single_dict \<Rightarrow> lexstate" where
  "lex_singlechar_comments char lexeme in_comment end_comment single =
     (if in_comment then
        (if Some [char] = end_comment then (lexeme @ [char], False, None)
         else (lexeme @ [char], in_comment, end_comment))
      else if char \<in> fst ` set single then (lexeme @ [char], True, map_of single char)
      else (lexeme, in_comment, end_comment))"

definition allowed_pairs :: "(pystr \<times> pystr) list" where
  "allowed_pairs = [(py ''/*'', py ''*/'')]"

definition lex_multichar_comments ::
  "pychar \<Rightarrow> pychar option \<Rightarrow> pychar option \<Rightarrow> pystr \<Rightarrow> bool \<Rightarrow> pystr option \<Rightarrow>
   (pystr \<times> pystr) list \<Rightarrow> pyexn + lexstate" where
  "lex_multichar_comments char prev_char next_char lexeme in_comment end_comment cmts =
     (if length cmts = 0 then Inl (ValueError ''The variable provided to comments is empty.'')
      else if list_ex (\<lambda>p. p \<notin> set allowed_pairs) cmts then Inl NotImplementedError
      else if (py ''/*'', py ''*/'') \<in> set cmts then
        (if char = star then
           (if prev_char = Some slash then Inr (lexeme @ py ''/*'', True, end_comment)
            else if next_char = Some slash then Inr (lexeme @ py ''*/'', False, None)
            else Inr (lexeme @ py ''*'', in_comment, end_comment))
         else if char = slash then
           (if prev_char \<noteq> Some star \<and> next_char \<noteq> Some star
            then Inr (lexeme @ py ''/'', in_comment, end_comment)
            else Inr (lexeme, in_comment, end_comment))
         else Inr (lexeme, in_comment, end_comment))
      else Inr (lexeme, in_comment, end_comment))"

text \<open>
  The dictionary \<^verbatim>\<open>_prepare_comment_tuples\<close> computes.  A key of
  \<^verbatim>\<open>single_comments\<close> is a string of length one and \<^verbatim>\<open>multi_chars\<close> holds the
  characters of the longer delimiters, so both are kept by code point.
\<close>

record c_info =
  single_comments :: single_dict
  multi_chars :: "pychar set"
  chars :: "pychar set"

definition add_pair :: "pystr \<times> pystr \<Rightarrow> c_info \<Rightarrow> c_info" where
  "add_pair pair d =
     (if length (fst pair) = 1
      then d\<lparr>single_comments := (hd (fst pair), snd pair) # single_comments d\<rparr>
      else d\<lparr>multi_chars := multi_chars d \<union> set (fst pair) \<union> set (snd pair)\<rparr>)"

definition prepare_comment_tuples :: "(pystr \<times> pystr) list \<Rightarrow> c_info" where
  "prepare_comment_tuples cmts =
     (let d = fold add_pair cmts \<lparr>single_comments = [], multi_chars = {}, chars = {}\<rparr>
      in d\<lparr>chars := fst ` set (single_comments d) \<union> multi_chars d\<rparr>)"

definition lex_comment ::
  "pychar \<Rightarrow> pychar option \<Rightarrow> pychar option \<Rightarrow> pystr \<Rightarrow> bool \<Rightarrow> pystr option \<Rightarrow>
   (pystr \<times> pystr) list \<Rightarrow> c_info \<Rightarrow> pyexn + lexstate" where
  "lex_comment char prev_char next_char lexeme in_comment end_comment cmts ci =
     (if char \<in> multi_chars ci
      then lex_multichar_comments char prev_char next_char lexeme in_comment end_comment cmts
      else Inr (lex_singlechar_comments char lexeme in_comment end_comment (single_comments ci)))"

text \<open>
  \<^verbatim>\<open>_prev_char\<close> and \<^verbatim>\<open>_next_char\<close> at an index \<^verbatim>\<open>enumerate\<close> gives, which is
  never negative.  \<^verbatim>\<open>s[idx - 1]\<close> raises \<^verbatim>\<open>IndexError\<close> past the end of the text,
  and \<^verbatim>\<open>_next_char\<close> turns the \<^verbatim>\<open>IndexError\<close> of \<^verbatim>\<open>s[idx + 1]\<close> into \<open>None\<close>.
\<close>

definition prev_char :: "pystr \<Rightarrow> nat \<Rightarrow> pyexn + pychar option" where
  "prev_char s idx =
     (if idx \<le> 0 then Inr None
      else if idx - 1 < length s then Inr (Some (s ! (idx - 1)))
      else Inl IndexError)"

definition next_char :: "pystr \<Rightarrow> nat \<Rightarrow> pychar option" where
  "next_char s idx = (if idx + 1 < length s then Some (s ! (idx + 1)) else None)"

definition lex_char ::
  "pychar \<Rightarrow> pychar option \<Rightarrow> pychar option \<Rightarrow> pystr \<Rightarrow> bool \<Rightarrow> pystr option \<Rightarrow>
   grammar \<Rightarrow> c_info \<Rightarrow> pyexn + lexstate" where
  "lex_char char prev_c next_c lexeme in_comment end_comment g ci =
     (if in_comment \<or> char \<in> chars ci
      then lex_comment char prev_c next_c lexeme in_comment end_comment (comments g) ci
      else if [char] \<notin> set (whitespace g) then Inr (lexeme @ [char], in_comment, end_comment)
      else Inr (lexeme, in_comment, end_comment))"

section \<open>lexer.py: the generator \<^verbatim>\<open>lexer\<close>\<close>

text \<open>
  The module \<^verbatim>\<open>pvl/token.py\<close> is not among the sources.  The lexer uses it twice:
  \<^verbatim>\<open>Token(lexeme, grammar=g)\<close> wraps the lexeme it yields (a \<^verbatim>\<open>Token\<close> compares equal
  to its text, as the tests of the lexer do), and
  \<^verbatim>\<open>Token(char + next_char, grammar=g).is_numeric()\<close> classifies the two-character
  lookahead.  The classification is a parameter \<open>is_numeric\<close> of the model: it
  returns \<open>Inr b\<close> for the answer \<open>b\<close> and \<open>Inl m\<close> when it raises a
  \<^verbatim>\<open>ValueError\<close> whose text is \<open>m\<close>, the one exception the lexer catches.
\<close>

type_synonym classifier = "pystr \<Rightarrow> string + bool"

datatype pyval = PyNone | Token pystr

text \<open>\<^verbatim>\<open>s.startswith(prefixes, start)\<close> and \<^verbatim>\<open>lexeme.endswith(suffixes)\<close> with tuples.\<close>

definition startswith :: "pystr \<Rightarrow> pystr list \<Rightarrow> nat \<Rightarrow> bool" where
  "startswith s prefixes start =
     (start \<le> length s \<and> list_ex (\<lambda>p. take (length p) (drop start s) = p) prefixes)"

definition endswith :: "pystr \<Rightarrow> pystr list \<Rightarrow> bool" where
  "endswith s suffixes =
     list_ex (\<lambda>p. length p \<le> length s \<and> drop (length s - length p) s = p) suffixes"

text \<open>
  What the \<^verbatim>\<open>try\<close> block decides once \<^verbatim>\<open>lex_char\<close> has dealt with the character
  at index \<open>i\<close>: to yield the lexeme, to go round the loop again, or to leave through
  the \<^verbatim>\<open>except\<close> clause with a \<^verbatim>\<open>LexerError\<close> at \<^verbatim>\<open>i - len(lexeme)\<close>.  Python's
  \<^verbatim>\<open>or\<close> does not classify the lookahead inside a comment.
\<close>

datatype decision = Yield pystr | Continue | Raise pyexn

definition boundary :: "classifier \<Rightarrow> grammar \<Rightarrow> pystr \<Rightarrow> nat \<Rightarrow> pychar \<Rightarrow> pychar option \<Rightarrow> lexstate \<Rightarrow> decision" where
  "boundary is_numeric g s i char next_c st =
     (case st of (lexeme, in_comment, end_comment) \<Rightarrow>
        if lexeme \<noteq> [] then
          (case next_c of
             None \<Rightarrow> Yield lexeme
           | Some n \<Rightarrow>
               if in_comment then Continue
               else (case is_numeric [char, n] of
                       Inl err \<Rightarrow> Raise (LexerErr (LexerError err s (int i - int (length lexeme))))
                     | Inr numeric \<Rightarrow>
                         if numeric then Continue
                         else if [n] \<in> set (whitespace g) \<or>
                                 [n] \<in> set (reserved_characters g) \<or>
                                 startswith s (map fst (comments g)) (i + 1) \<or>
                                 endswith lexeme (map snd (comments g)) \<or>
                                 lexeme \<in> set (reserved_characters g)
                         then Yield lexeme
                         else Continue))
        else Continue)"

text \<open>
  The generator is suspended before its first statement, at one of its three kinds of
  \<^verbatim>\<open>yield\<close> (with the loop index and the triple it will resume with), or it has
  finished.  \<open>AtYieldNone t\<close> holds the value \<open>t\<close> the consumer sent.
\<close>

datatype gen =
    NotStarted
  | AtYieldToken nat lexstate
  | AtYieldNone pyval nat lexstate
  | AtYieldBack nat lexstate
  | Finished

datatype step = Yielded pyval gen | StopIteration | Raised pyexn gen

text \<open>The \<^verbatim>\<open>for\<close> loop from index \<open>i\<close> on, up to the next \<^verbatim>\<open>yield\<close>.\<close>

function scan :: "classifier \<Rightarrow> grammar \<Rightarrow> c_info \<Rightarrow> pystr \<Rightarrow> nat \<Rightarrow> lexstate \<Rightarrow> step" where
  "scan is_numeric g ci s i st =
     (if i < length s then
        (case st of (lexeme, in_comment, end_comment) \<Rightarrow>
           (case prev_char s i of
              Inl e \<Rightarrow> Raised e Finished
            | Inr prev_c \<Rightarrow>
                (case lex_char (s ! i) prev_c (next_char s i) lexeme in_comment end_comment g ci of
                   Inl e \<Rightarrow> Raised e Finished
                 | Inr st' \<Rightarrow>
                     (case boundary is_numeric g s i (s ! i) (next_char s i) st' of
                        Yield tok \<Rightarrow> Yielded (Token tok) (AtYieldToken i st')
                      | Continue \<Rightarrow> scan is_numeric g ci s (i + 1) st'
                      | Raise e \<Rightarrow> Raised e Finished))))
      else StopIteration)"
  by pat_completeness auto
termination
  by (relation "measure (\<lambda>(is_numeric, g, ci, s, i, st). length s - i)") auto

declare scan.simps [simp del]

text \<open>
  After \<^verbatim>\<open>t = yield(...)\<close> has received \<open>t\<close>: \<^verbatim>\<open>while t is not None: yield None\<close>
  suspends again holding \<open>t\<close>; otherwise \<^verbatim>\<open>lexeme = ''\<close> and the loop goes on.
\<close>

definition resume :: "classifier \<Rightarrow> grammar \<Rightarrow> pystr \<Rightarrow> nat \<Rightarrow> lexstate \<Rightarrow> pyval \<Rightarrow> step" where
  "resume is_numeric g s i st t =
     (if t \<noteq> PyNone then Yielded PyNone (AtYieldNone t i st)
      else (case st of (lexeme, in_comment, end_comment) \<Rightarrow>
              scan is_numeric g (prepare_comment_tuples (comments g)) s (i + 1) ([], in_comment, end_comment)))"

text \<open>
  \<^verbatim>\<open>gen.send(v)\<close>; \<^verbatim>\<open>next(gen)\<close> is \<^verbatim>\<open>gen.send(None)\<close>.  A generator that has not
  started accepts \<open>None\<close> only, and the value sent to \<^verbatim>\<open>yield None\<close> is dropped.
\<close>

fun send :: "classifier \<Rightarrow> grammar \<Rightarrow> pystr \<Rightarrow> gen \<Rightarrow> pyval \<Rightarrow> step" where
  "send is_numeric g s NotStarted v =
     (if v \<noteq> PyNone then Raised TypeError NotStarted
      else scan is_numeric g (prepare_comment_tuples (comments g)) s 0 ([], False, None))"
| "send is_numeric g s (AtYieldToken i st) v = resume is_numeric g s i st v"
| "send is_numeric g s (AtYieldNone t i st) v = Yielded t (AtYieldBack i st)"
| "send is_numeric g s (AtYieldBack i st) v = resume is_numeric g s i st v"
| "send is_numeric g s Finished v = StopIteration"

text \<open>Every \<^verbatim>\<open>yield\<close> the loop reaches hands out the lexeme of a later index.\<close>

lemma boundary_Yield:
  "boundary is_numeric g s i c n st = Yield tok \<Longrightarrow> tok = fst st \<and> tok \<noteq> []"
  by (auto simp: boundary_def split: prod.splits if_splits option.splits sum.splits)

lemma scan_Yielded:
  "scan is_numeric g ci s i st = Yielded v gen' \<Longrightarrow>
     \<exists>j st'. gen' = AtYieldToken j st' \<and> i \<le> j \<and> j < length s \<and> v = Token (fst st') \<and> fst st' \<noteq> []"
proof (induction is_numeric g ci s i st rule: scan.induct)
  case (1 is_numeric g ci s i st)
  obtain lexeme in_comment end_comment where st: "st = (lexeme, in_comment, end_comment)"
    by (cases st) auto
  from "1.prems" have i: "i < length s"
    by (subst (asm) scan.simps) (simp split: if_splits)
  from "1.prems" i st obtain prev_c where p: "prev_char s i = Inr prev_c"
    by (subst (asm) scan.simps) (simp split: sum.splits)
  from "1.prems" i st p obtain st' where
    l: "lex_char (s ! i) prev_c (next_char s i) lexeme in_comment end_comment g ci = Inr st'"
    by (subst (asm) scan.simps) (simp split: sum.splits)
  show ?case
  proof (cases "boundary is_numeric g s i (s ! i) (next_char s i) st'")
    case (Yield tok)
    with "1.prems" i st p l boundary_Yield[OF Yield] show ?thesis
      by (subst (asm) scan.simps) (cases st', auto)
  next
    case Continue
    with "1.prems" i st p l have "scan is_numeric g ci s (i + 1) st' = Yielded v gen'"
      by (subst (asm) scan.simps) simp
    from "1.IH"[OF i st[symmetric] refl p l Continue this] show ?thesis
      by auto
  next
    case (Raise e)
    with "1.prems" i st p l show ?thesis
      by (subst (asm) scan.simps) simp
  qed
qed

text \<open>
  \<^verbatim>\<open>list(lexer(s, g))\<close>: the consumer calls \<^verbatim>\<open>next\<close> until the generator stops, and an
  exception of the generator ends the call.  Every \<^verbatim>\<open>next\<close> moves the generator on,
  so the loop ends.
\<close>

fun gen_measure :: "pystr \<Rightarrow> gen \<Rightarrow> nat" where
  "gen_measure s NotStarted = 2 * length s + 3"
| "gen_measure s (AtYieldToken i st) = 2 * (length s - i)"
| "gen_measure s (AtYieldNone t i st) = 2 * (length s - i) + 1"
| "gen_measure s (AtYieldBack i st) = 2 * (length s - i)"
| "gen_measure s Finished = 0"

lemma send_decreases:
  "send is_numeric g s gen PyNone = Yielded v gen' \<Longrightarrow> gen_measure s gen' < gen_measure s gen"
  by (cases gen) (auto simp: resume_def dest!: scan_Yielded split: prod.splits)

function drain :: "classifier \<Rightarrow> grammar \<Rightarrow> pystr \<Rightarrow> gen \<Rightarrow> pyexn + pyval list" where
  "drain is_numeric g s gen =
     (case send is_numeric g s gen PyNone of
        Yielded v gen' \<Rightarrow>
          (case drain is_numeric g s gen' of Inl e \<Rightarrow> Inl e | Inr vs \<Rightarrow> Inr (v # vs))
      | StopIteration \<Rightarrow> Inr []
      | Raised e gen' \<Rightarrow> Inl e)"
  by pat_completeness auto
termination
  by (relation "measure (\<lambda>(is_numeric, g, s, gen). gen_measure s gen)") (auto dest: send_decreases)

declare drain.simps [simp del]

definition list_lexer :: "classifier \<Rightarrow> pystr \<Rightarrow> grammar \<Rightarrow> pyexn + pyval list" where
  "list_lexer is_numeric s g = drain is_numeric g s NotStarted"

section \<open>The classification of a token\<close>

text \<open>
  Modelled from the spec: \<^verbatim>\<open>Token.is_numeric\<close> of \<^verbatim>\<open>pvl/token.py\<close>, which is not among
  the sources.  The spec has it recognise optionally signed decimal integers, decimal
  floats (optional leading sign, digits, optional fractional part, optional exponent) and
  the non-decimal radix forms of the grammar's patterns, and never raise.
\<close>

definition digit :: regex where
  "digit = Class [rng CHR ''0'' CHR ''9'']"

definition decimal_re :: regex where
  "decimal_re =
     Seq (Opt (Class [one CHR ''+'', one CHR ''-'']))
       (Seq (Plus digit)
         (Seq (Opt (Seq (Lit (py ''.'')) (Star digit)))
              (Opt (Seq (Class [one CHR ''e'', one CHR ''E''])
                     (Seq (Opt (Class [one CHR ''+'', one CHR ''-''])) (Plus digit))))))"

definition is_numeric_spec :: "grammar \<Rightarrow> classifier" where
  "is_numeric_spec g u =
     Inr (fullmatch decimal_re u \<or> fullmatch (binary_re g) u \<or> fullmatch (octal_re g) u \<or>
          fullmatch (hex_re g) u \<or>
          (case nondecimal_re g of None \<Rightarrow> False | Some r \<Rightarrow> fullmatch r u))"

section \<open>The character sets of the two grammars\<close>

text \<open>
  C5, as amended.  \<^verbatim>\<open>ODLgrammar.char_allowed\<close> answers \<open>True\<close> for a single character
  exactly when its code point is at most 127.  The ODL set is not a part of the base
  set: an ASCII character is allowed by the base grammar exactly when it is none of the
  control characters 0x00-0x08, 0x0B, 0x0E-0x1F and 0x7F, all of which ODL allows.
\<close>

theorem ODL_char_allowed_ascii:
  "ODLgrammar_char_allowed [c] = Inr (c \<le> 127) \<and>
   (c \<le> 127 \<longrightarrow>
      grammar_char_allowed [c] = Inr (\<not> (c \<le> 8 \<or> c = 11 \<or> (14 \<le> c \<and> c \<le> 31) \<or> c = 127)))"
  by (auto simp: ODLgrammar_char_allowed_def grammar_char_allowed_def encode_ascii_def)

text \<open>The letter \<^verbatim>\<open>A\<close> is allowed by both grammars.\<close>

theorem ODL_char_allowed_ascii_witness:
  "ODLgrammar_char_allowed [65] = Inr True \<and> grammar_char_allowed [65] = Inr True"
  using ODL_char_allowed_ascii [of 65] by simp

text \<open>
  C5 as stated fails at the character NUL: the ODL grammar allows it, the base grammar
  does not.
\<close>

theorem ODL_not_within_base_counterexample:
  "ODLgrammar_char_allowed [0] = Inr True \<and> grammar_char_allowed [0] = Inr False"
  by (simp add: ODLgrammar_char_allowed_def grammar_char_allowed_def encode_ascii_def)

section \<open>The radix patterns\<close>

text \<open>
  The set of strings a pattern stands for, and the proof that matching by derivatives
  decides it.  \<open>rep A\<close> is every concatenation of strings of \<open>A\<close>, \<open>cat A B\<close> a string
  of \<open>A\<close> followed by one of \<open>B\<close>, and \<open>after c A\<close> what may follow a leading \<open>c\<close>.
\<close>

inductive_set rep :: "pystr set \<Rightarrow> pystr set" for A :: "pystr set" where
  rep_empty: "[] \<in> rep A"
| rep_more: "u \<in> A \<Longrightarrow> v \<in> rep A \<Longrightarrow> u @ v \<in> rep A"

definition cat :: "pystr set \<Rightarrow> pystr set \<Rightarrow> pystr set" where
  "cat A B = {u @ v | u v. u \<in> A \<and> v \<in> B}"

fun lang :: "regex \<Rightarrow> pystr set" where
  "lang Fail = {}"
| "lang (Lit u) = {u}"
| "lang (Class items) = {[c] | c. in_class items c}"
| "lang (Seq r1 r2) = cat (lang r1) (lang r2)"
| "lang (Alt r1 r2) = lang r1 \<union> lang r2"
| "lang (Opt r) = insert [] (lang r)"
| "lang (Plus r) = cat (lang r) (rep (lang r))"
| "lang (Star r) = rep (lang r)"
| "lang (Group name r) = lang r"

definition after :: "pychar \<Rightarrow> pystr set \<Rightarrow> pystr set" where
  "after c A = {u. c # u \<in> A}"

lemma nullable_lang: "nullable r \<longleftrightarrow> [] \<in> lang r"
  by (induction r) (auto simp: cat_def intro: rep.intros)

lemma after_cat:
  "after c (cat A B) = cat (after c A) B \<union> (if [] \<in> A then after c B else {})"
proof (intro set_eqI iffI)
  fix w assume "w \<in> after c (cat A B)"
  then obtain u v where uv: "c # w = u @ v" "u \<in> A" "v \<in> B"
    by (auto simp: after_def cat_def)
  show "w \<in> cat (after c A) B \<union> (if [] \<in> A then after c B else {})"
  proof (cases u)
    case Nil
    with uv show ?thesis by (auto simp: after_def)
  next
    case (Cons x u')
    with uv have "x = c" "w = u' @ v" by simp_all
    with uv Cons show ?thesis by (auto simp: after_def cat_def)
  qed
next
  fix w assume "w \<in> cat (after c A) B \<union> (if [] \<in> A then after c B else {})"
  then consider "w \<in> cat (after c A) B" | "[] \<in> A" "w \<in> after c B"
    by (auto split: if_splits)
  then show "w \<in> after c (cat A B)"
  proof cases
    case 1
    then obtain u v where "w = u @ v" "c # u \<in> A" "v \<in> B"
      by (auto simp: cat_def after_def)
    then have "c # w = (c # u) @ v \<and> c # u \<in> A \<and> v \<in> B" by simp
    then show ?thesis unfolding after_def cat_def by blast
  next
    case 2
    then have "c # w = [] @ (c # w) \<and> [] \<in> A \<and> c # w \<in> B" by (simp add: after_def)
    then show ?thesis unfolding after_def cat_def by blast
  qed
qed

lemma rep_after_split:
  "w \<in> rep A \<Longrightarrow> w = c # t \<Longrightarrow> \<exists>u v. t = u @ v \<and> c # u \<in> A \<and> v \<in> rep A"
proof (induction arbitrary: t rule: rep.induct)
  case rep_empty
  then show ?case by simp
next
  case (rep_more u v)
  show ?case
  proof (cases u)
    case Nil
    with rep_more show ?thesis by simp
  next
    case (Cons x u')
    with rep_more.prems have "x = c" "t = u' @ v" by simp_all
    with rep_more.hyps Cons show ?thesis by blast
  qed
qed

lemma after_rep: "after c (rep A) = cat (after c A) (rep A)"
proof (intro set_eqI iffI)
  fix w assume "w \<in> after c (rep A)"
  then have "c # w \<in> rep A" by (simp add: after_def)
  from rep_after_split[OF this refl] show "w \<in> cat (after c A) (rep A)"
    by (auto simp: cat_def after_def)
next
  fix w assume "w \<in> cat (after c A) (rep A)"
  then obtain u v where "w = u @ v" "c # u \<in> A" "v \<in> rep A"
    by (auto simp: cat_def after_def)
  then have "(c # u) @ v \<in> rep A" by (intro rep_more)
  with \<open>w = u @ v\<close> show "w \<in> after c (rep A)" by (simp add: after_def)
qed

lemma after_plus: "after c (cat A (rep A)) = cat (after c A) (rep A)"
proof -
  have "after c (cat A (rep A)) = cat (after c A) (rep A) \<union> (if [] \<in> A then after c (rep A) else {})"
    by (rule after_cat)
  moreover have "after c (rep A) = cat (after c A) (rep A)"
    by (rule after_rep)
  ultimately show ?thesis by auto
qed

lemma lang_deriv: "lang (deriv c r) = after c (lang r)"
proof (induction r)
  case (Lit u)
  then show ?case by (cases u) (auto simp: after_def)
next
  case (Class items)
  then show ?case by (auto simp: after_def)
next
  case (Seq r1 r2)
  then show ?case by (simp add: after_cat nullable_lang)
next
  case (Plus r)
  then show ?case by (simp add: after_plus)
next
  case (Star r)
  then show ?case by (simp add: after_rep)
qed (auto simp: after_def)

lemma lang_derivs: "u \<in> lang (derivs w r) \<longleftrightarrow> w @ u \<in> lang r"
  by (induction w arbitrary: r) (simp_all add: lang_deriv after_def)

lemma fullmatch_lang: "fullmatch r u \<longleftrightarrow> u \<in> lang r"
  using lang_derivs[of "[]" u r] by (simp add: fullmatch_def nullable_lang)


text \<open>
  What the three radix patterns of the base grammar match: an optional sign, the radix,
  \<^verbatim>\<open>#\<close>, one or more characters of the class, \<^verbatim>\<open>#\<close>.  The class of \<^verbatim>\<open>hex_re\<close> holds
  the bar, code point 124, beside the hexadecimal digits.
\<close>

lemma rep_class: "rep {[c] | c. P c} = {u. \<forall>c\<in>set u. P c}"
proof (intro set_eqI iffI)
  fix u assume "u \<in> rep {[c] | c. P c}"
  then show "u \<in> {u. \<forall>c\<in>set u. P c}"
    by (induction rule: rep.induct) auto
next
  fix u assume "u \<in> {u. \<forall>c\<in>set u. P c}"
  then have "\<forall>c\<in>set u. P c" by simp
  then show "u \<in> rep {[c] | c. P c}"
  proof (induction u)
    case Nil
    show ?case by (rule rep_empty)
  next
    case (Cons c u)
    then have "[c] \<in> {[c] | c. P c}" "u \<in> rep {[c] | c. P c}" by simp_all
    then have "[c] @ u \<in> rep {[c] | c. P c}" by (rule rep_more)
    then show ?case by simp
  qed
qed

lemma lang_digits:
  "lang (Plus (Class items)) = {ds. ds \<noteq> [] \<and> (\<forall>c\<in>set ds. in_class items c)}"
proof -
  have "lang (Plus (Class items)) =
          cat {[c] | c. in_class items c} {u. \<forall>c\<in>set u. in_class items c}"
    by (simp add: rep_class)
  also have "\<dots> = {ds. ds \<noteq> [] \<and> (\<forall>c\<in>set ds. in_class items c)}"
  proof (intro set_eqI iffI)
    fix ds assume "ds \<in> cat {[c] | c. in_class items c} {u. \<forall>c\<in>set u. in_class items c}"
    then show "ds \<in> {ds. ds \<noteq> [] \<and> (\<forall>c\<in>set ds. in_class items c)}"
      by (auto simp: cat_def)
  next
    fix ds assume "ds \<in> {ds. ds \<noteq> [] \<and> (\<forall>c\<in>set ds. in_class items c)}"
    then obtain c u where "ds = [c] @ u" "in_class items c" "\<forall>x\<in>set u. in_class items x"
      by (cases ds) auto
    then show "ds \<in> cat {[c] | c. in_class items c} {u. \<forall>c\<in>set u. in_class items c}"
      unfolding cat_def by blast
  qed
  finally show ?thesis .
qed

lemma lang_sign: "lang sign_re = {[], py ''+'', py ''-''}"
  by (auto simp: sign_re_def in_class_def one_def py_def)

lemma cat_iff: "w \<in> cat A B \<longleftrightarrow> (\<exists>u v. w = u @ v \<and> u \<in> A \<and> v \<in> B)"
  by (auto simp: cat_def)

lemma lang_radix_form:
  "w \<in> lang (Seq sign_re (Seq (Group n1 (Lit r)) (Seq (Lit (py ''#''))
          (Seq (Group n2 (Plus (Class items))) (Lit (py ''#'')))))) \<longleftrightarrow>
     (\<exists>sg ds. w = sg @ r @ py ''#'' @ ds @ py ''#'' \<and>
        sg \<in> {[], py ''+'', py ''-''} \<and> ds \<noteq> [] \<and> (\<forall>c\<in>set ds. in_class items c))"
proof -
  have "w \<in> lang (Seq sign_re (Seq (Group n1 (Lit r)) (Seq (Lit (py ''#''))
          (Seq (Group n2 (Plus (Class items))) (Lit (py ''#'')))))) \<longleftrightarrow>
        (\<exists>sg v1. w = sg @ v1 \<and> sg \<in> lang sign_re \<and>
           (\<exists>v2. v1 = r @ v2 \<and>
              (\<exists>v3. v2 = py ''#'' @ v3 \<and>
                 (\<exists>ds. v3 = ds @ py ''#'' \<and> ds \<in> lang (Plus (Class items))))))"
    unfolding lang.simps(4) lang.simps(9) lang.simps(2) cat_iff by blast
  also have "\<dots> \<longleftrightarrow> (\<exists>sg ds. w = sg @ r @ py ''#'' @ ds @ py ''#'' \<and>
        sg \<in> {[], py ''+'', py ''-''} \<and> ds \<noteq> [] \<and> (\<forall>c\<in>set ds. in_class items c))"
    unfolding lang_digits lang_sign by blast
  finally show ?thesis .
qed

lemma in_class_binary: "in_class [one CHR ''0'', one CHR ''1''] c \<longleftrightarrow> c = 48 \<or> c = 49"
  by (auto simp: in_class_def one_def)

lemma in_class_octal: "in_class [rng CHR ''0'' CHR ''7''] c \<longleftrightarrow> 48 \<le> c \<and> c \<le> 55"
  by (auto simp: in_class_def rng_def)

lemma in_class_hex:
  "in_class [rng CHR ''0'' CHR ''9'', one CHR ''|'', rng CHR ''A'' CHR ''F'', one CHR ''|'',
             rng CHR ''a'' CHR ''f''] c \<longleftrightarrow>
     48 \<le> c \<and> c \<le> 57 \<or> 65 \<le> c \<and> c \<le> 70 \<or> 97 \<le> c \<and> c \<le> 102 \<or> c = 124"
  by (auto simp: in_class_def rng_def one_def)

lemma binary_re_matches:
  "fullmatch (binary_re pvl_grammar) u \<longleftrightarrow>
     (\<exists>sg ds. u = sg @ py ''2'' @ py ''#'' @ ds @ py ''#'' \<and> sg \<in> {[], py ''+'', py ''-''} \<and>
        ds \<noteq> [] \<and> (\<forall>c\<in>set ds. c = 48 \<or> c = 49))"
proof -
  have "binary_re pvl_grammar =
      Seq sign_re (Seq (Group ''radix'' (Lit (py ''2''))) (Seq (Lit (py ''#''))
        (Seq (Group ''non_decimal'' (Plus (Class [one CHR ''0'', one CHR ''1'']))) (Lit (py ''#'')))))"
    by (simp add: pvl_grammar_def)
  then show ?thesis
    by (simp only: fullmatch_lang lang_radix_form in_class_binary)
qed

lemma octal_re_matches:
  "fullmatch (octal_re pvl_grammar) u \<longleftrightarrow>
     (\<exists>sg ds. u = sg @ py ''8'' @ py ''#'' @ ds @ py ''#'' \<and> sg \<in> {[], py ''+'', py ''-''} \<and>
        ds \<noteq> [] \<and> (\<forall>c\<in>set ds. 48 \<le> c \<and> c \<le> 55))"
proof -
  have "octal_re pvl_grammar =
      Seq sign_re (Seq (Group ''radix'' (Lit (py ''8''))) (Seq (Lit (py ''#''))
        (Seq (Group ''non_decimal'' (Plus (Class [rng CHR ''0'' CHR ''7'']))) (Lit (py ''#'')))))"
    by (simp add: pvl_grammar_def)
  then show ?thesis
    by (simp only: fullmatch_lang lang_radix_form in_class_octal)
qed

lemma hex_re_matches:
  "fullmatch (hex_re pvl_grammar) u \<longleftrightarrow>
     (\<exists>sg ds. u = sg @ py ''16'' @ py ''#'' @ ds @ py ''#'' \<and> sg \<in> {[], py ''+'', py ''-''} \<and>
        ds \<noteq> [] \<and>
        (\<forall>c\<in>set ds. 48 \<le> c \<and> c \<le> 57 \<or> 65 \<le> c \<and> c \<le> 70 \<or> 97 \<le> c \<and> c \<le> 102 \<or> c = 124))"
proof -
  have "hex_re pvl_grammar =
      Seq sign_re (Seq (Group ''radix'' (Lit (py ''16''))) (Seq (Lit (py ''#''))
        (Seq (Group ''non_decimal'' (Plus (Class [rng CHR ''0'' CHR ''9'', one CHR ''|'',
           rng CHR ''A'' CHR ''F'', one CHR ''|'', rng CHR ''a'' CHR ''f'']))) (Lit (py ''#'')))))"
    by (simp add: pvl_grammar_def hex_digits_def)
  then show ?thesis
    by (simp only: fullmatch_lang lang_radix_form in_class_hex)
qed

text \<open>
  C6: the three radix patterns should match exactly the strings sign, radix,
  \<^verbatim>\<open>#\<close>, digits of the radix, \<^verbatim>\<open>#\<close>.  The class of \<^verbatim>\<open>hex_re\<close> is written
  \<^verbatim>\<open>[0-9|A-F|a-f]\<close>, so \<^verbatim>\<open>hex_re\<close> matches \<^verbatim>\<open>16#A|F#\<close> with a bar between
  the octothorpes; \<^verbatim>\<open>octal_re\<close> and \<^verbatim>\<open>binary_re\<close> reject a bar.
\<close>

theorem hex_re_accepts_bar:
  "fullmatch (hex_re pvl_grammar) (py ''16#A|F#'') \<and>
   \<not> fullmatch (octal_re pvl_grammar) (py ''8#1|7#'') \<and>
   \<not> fullmatch (binary_re pvl_grammar) (py ''2#0|1#'')"
  by code_simp

section \<open>Consumers of the generator\<close>

text \<open>
  \<open>lookaheads s\<close> lists the strings \<^verbatim>\<open>char + next_char\<close> of a text, the only
  arguments the lexer gives to the classification.  \<open>sends\<close> is a consumer that
  sends the values of a list one after the other and records what each call of
  \<^verbatim>\<open>send\<close> answers.
\<close>

definition lookaheads :: "pystr \<Rightarrow> pystr list" where
  "lookaheads s = map (\<lambda>i. [s ! i, s ! (i + 1)]) [0 ..< length s - 1]"

datatype answer = Gives pyval | Stops | Raises pyexn

fun sends :: "classifier \<Rightarrow> grammar \<Rightarrow> pystr \<Rightarrow> gen \<Rightarrow> pyval list \<Rightarrow> answer list" where
  "sends is_numeric g s gen [] = []"
| "sends is_numeric g s gen (v # vs) =
     (case send is_numeric g s gen v of
        Yielded x gen' \<Rightarrow> Gives x # sends is_numeric g s gen' vs
      | StopIteration \<Rightarrow> Stops # sends is_numeric g s Finished vs
      | Raised e gen' \<Rightarrow> Raises e # sends is_numeric g s gen' vs)"

text \<open>The generator holds a pushed-back value when it waits at \<^verbatim>\<open>yield None\<close>.\<close>

definition holds_pushback :: "gen \<Rightarrow> bool" where
  "holds_pushback gen = (case gen of AtYieldNone t i st \<Rightarrow> True | _ \<Rightarrow> False)"

section \<open>Tokens are not empty\<close>

lemma send_None_Token:
  assumes "send is_numeric g s gen PyNone = Yielded v gen'" "\<not> holds_pushback gen"
  shows "(\<exists>tok. v = Token tok \<and> tok \<noteq> []) \<and> \<not> holds_pushback gen'"
  using assms
  by (cases gen) (auto simp: resume_def holds_pushback_def dest!: scan_Yielded split: prod.splits)

lemma drain_Tokens:
  "drain is_numeric g s gen = Inr vs \<Longrightarrow> \<not> holds_pushback gen \<Longrightarrow>
     list_all (\<lambda>v. \<exists>tok. v = Token tok \<and> tok \<noteq> []) vs"
proof (induction is_numeric g s gen arbitrary: vs rule: drain.induct)
  case (1 is_numeric g s gen)
  show ?case
  proof (cases "send is_numeric g s gen PyNone")
    case (Yielded v gen')
    with "1.prems"(1) obtain ws where ws: "drain is_numeric g s gen' = Inr ws" "vs = v # ws"
      by (subst (asm) drain.simps) (auto split: sum.splits)
    from send_None_Token[OF Yielded "1.prems"(2)] "1.IH"[OF Yielded ws(1)] ws(2)
    show ?thesis by simp
  next
    case StopIteration
    with "1.prems"(1) show ?thesis
      by (subst (asm) drain.simps) auto
  next
    case (Raised e gen')
    with "1.prems"(1) show ?thesis
      by (subst (asm) drain.simps) auto
  qed
qed

text \<open>
  C10: every token the lexer itself produces is a non-empty string.  For every
  classification, grammar and text: when the consumer calls \<^verbatim>\<open>next\<close> on a generator
  that holds no pushed-back value, a value it receives is a token with a non-empty
  text; and so is every element of \<^verbatim>\<open>list(lexer(s, g))\<close>.
\<close>

theorem lexer_tokens_nonempty:
  "(\<not> holds_pushback gen \<and> send is_numeric g s gen PyNone = Yielded v gen'
      \<longrightarrow> (\<exists>tok. v = Token tok \<and> tok \<noteq> [])) \<and>
   (list_lexer is_numeric s g = Inr vs \<longrightarrow> (\<forall>v\<in>set vs. \<exists>tok. v = Token tok \<and> tok \<noteq> []))"
proof (intro conjI impI)
  assume "\<not> holds_pushback gen \<and> send is_numeric g s gen PyNone = Yielded v gen'"
  then show "\<exists>tok. v = Token tok \<and> tok \<noteq> []"
    using send_None_Token by blast
next
  assume "list_lexer is_numeric s g = Inr vs"
  then have "list_all (\<lambda>v. \<exists>tok. v = Token tok \<and> tok \<noteq> []) vs"
    using drain_Tokens[of is_numeric g s NotStarted vs]
    by (simp add: list_lexer_def holds_pushback_def)
  then show "\<forall>v\<in>set vs. \<exists>tok. v = Token tok \<and> tok \<noteq> []"
    by (simp add: list_all_iff)
qed

text \<open>The lexer finds three non-empty tokens in \<^verbatim>\<open>Te=st\<close>.\<close>

theorem lexer_tokens_nonempty_witness:
  "send (is_numeric_spec pvl_grammar) pvl_grammar (py ''Te=st'') NotStarted PyNone =
     Yielded (Token (py ''Te'')) (AtYieldToken 1 (py ''Te'', False, None)) \<and>
   list_lexer (is_numeric_spec pvl_grammar) (py ''Te=st'') pvl_grammar =
     Inr [Token (py ''Te''), Token (py ''=''), Token (py ''st'')] \<and>
   (\<exists>tok. Token (py ''Te'') = Token tok \<and> tok \<noteq> []) \<and>
   list_all (\<lambda>v. \<exists>tok. v = Token tok \<and> tok \<noteq> []) [Token (py ''Te''), Token (py ''=''), Token (py ''st'')]"
proof -
  have a: "send (is_numeric_spec pvl_grammar) pvl_grammar (py ''Te=st'') NotStarted PyNone =
     Yielded (Token (py ''Te'')) (AtYieldToken 1 (py ''Te'', False, None))"
    by code_simp
  have b: "list_lexer (is_numeric_spec pvl_grammar) (py ''Te=st'') pvl_grammar =
     Inr [Token (py ''Te''), Token (py ''=''), Token (py ''st'')]"
    by code_simp
  have c: "\<not> holds_pushback NotStarted"
    by (simp add: holds_pushback_def)
  from lexer_tokens_nonempty[where gen = NotStarted and is_numeric = "is_numeric_spec pvl_grammar"
      and g = pvl_grammar and s = "py ''Te=st''" and v = "Token (py ''Te'')"
      and gen' = "AtYieldToken 1 (py ''Te'', False, None)"
      and vs = "[Token (py ''Te''), Token (py ''=''), Token (py ''st'')]"] a b c
  show ?thesis by (simp add: list_all_iff)
qed

section \<open>Running the lexer on a text\<close>

text \<open>The base grammar's tables, and the unfolding of one turn of the loop.\<close>

lemma ci_pvl:
  "prepare_comment_tuples [([47, 42], [42, 47])] =
     \<lparr>single_comments = [], multi_chars = {47, 42}, chars = {47, 42}\<rparr>"
  by (auto simp add: prepare_comment_tuples_def add_pair_def)

lemma pvl_fields:
  "whitespace pvl_grammar = [[32], [9], [10], [13], [11], [12]]"
  "reserved_characters pvl_grammar =
     [[38], [60], [62], [39], [123], [125], [44], [91], [93], [61], [33], [35], [40], [41],
      [37], [43], [34], [59], [126], [124]]"
  "comments pvl_grammar = [([47, 42], [42, 47])]"
  by (simp_all add: pvl_grammar_def py_def spacing_characters_def format_effectors_def)

lemmas lex_defs =
  list_lexer_def resume_def boundary_def lex_char_def lex_comment_def lex_multichar_comments_def
  lex_singlechar_comments_def prev_char_def next_char_def startswith_def endswith_def
  allowed_pairs_def star_def slash_def lookaheads_def py_def

lemma scan_step:
  "i < length s \<Longrightarrow> prev_char s i = Inr p \<Longrightarrow>
   lex_char (s ! i) p (next_char s i) lexeme in_comment end_comment g ci = Inr st' \<Longrightarrow>
   scan is_numeric g ci s i (lexeme, in_comment, end_comment) =
     (case boundary is_numeric g s i (s ! i) (next_char s i) st' of
        Yield tok \<Rightarrow> Yielded (Token tok) (AtYieldToken i st')
      | Continue \<Rightarrow> scan is_numeric g ci s (i + 1) st'
      | Raise e \<Rightarrow> Raised e Finished)"
  by (subst scan.simps) simp

section \<open>Pushing a token back\<close>

text \<open>
  C7: a consumer that has just received a token and sends a value \<open>t\<close> other than
  \<open>None\<close> gets \<open>None\<close> as the answer of \<^verbatim>\<open>send\<close>; its next pull (whatever it
  sends) gives exactly \<open>t\<close>; and from then on the generator behaves as if nothing had
  been pushed back: the next pull, and the rest of the tokens, are those that follow
  the token received.  On \<^verbatim>\<open>One Two Three\<close>, when no lookahead of the text
  classifies as numeric, pulling twice, sending back \<^verbatim>\<open>Two\<close> and pulling three
  times more gives \<^verbatim>\<open>One\<close>, \<^verbatim>\<open>Two\<close>, \<open>None\<close>, \<^verbatim>\<open>Two\<close>, \<^verbatim>\<open>Three\<close> and the end.
\<close>

theorem pushback:
  "(t \<noteq> PyNone \<longrightarrow>
      send is_numeric g s (AtYieldToken i st) t = Yielded PyNone (AtYieldNone t i st) \<and>
      send is_numeric g s (AtYieldNone t i st) w = Yielded t (AtYieldBack i st) \<and>
      send is_numeric g s (AtYieldBack i st) PyNone = send is_numeric g s (AtYieldToken i st) PyNone \<and>
      drain is_numeric g s (AtYieldBack i st) = drain is_numeric g s (AtYieldToken i st)) \<and>
   ((\<forall>p\<in>set (lookaheads (py ''One Two Three'')). is_numeric p = Inr False) \<longrightarrow>
      sends is_numeric pvl_grammar (py ''One Two Three'') NotStarted
        [PyNone, PyNone, Token (py ''Two''), PyNone, PyNone, PyNone] =
        [Gives (Token (py ''One'')), Gives (Token (py ''Two'')), Gives PyNone,
         Gives (Token (py ''Two'')), Gives (Token (py ''Three'')), Stops])"
proof (intro conjI impI)
  assume "\<forall>p\<in>set (lookaheads (py ''One Two Three'')). is_numeric p = Inr False"
  then show "sends is_numeric pvl_grammar (py ''One Two Three'') NotStarted
        [PyNone, PyNone, Token (py ''Two''), PyNone, PyNone, PyNone] =
        [Gives (Token (py ''One'')), Gives (Token (py ''Two'')), Gives PyNone,
         Gives (Token (py ''Two'')), Gives (Token (py ''Three'')), Stops]"
    by (simp add: lex_defs ci_pvl pvl_fields scan.simps)
qed (simp_all add: resume_def drain.simps[of _ _ _ "AtYieldBack i st"] drain.simps[of _ _ _ "AtYieldToken i st"])

text \<open>The classification modelled from the spec finds no numeric lookahead in the text.\<close>

theorem pushback_witness:
  "send (is_numeric_spec pvl_grammar) pvl_grammar (py ''One Two Three'') (AtYieldToken 6 (py ''Two'', False, None)) (Token (py ''Two''))
     = Yielded PyNone (AtYieldNone (Token (py ''Two'')) 6 (py ''Two'', False, None)) \<and>
   send (is_numeric_spec pvl_grammar) pvl_grammar (py ''One Two Three'') (AtYieldNone (Token (py ''Two'')) 6 (py ''Two'', False, None)) PyNone
     = Yielded (Token (py ''Two'')) (AtYieldBack 6 (py ''Two'', False, None)) \<and>
   sends (is_numeric_spec pvl_grammar) pvl_grammar (py ''One Two Three'') NotStarted
        [PyNone, PyNone, Token (py ''Two''), PyNone, PyNone, PyNone] =
        [Gives (Token (py ''One'')), Gives (Token (py ''Two'')), Gives PyNone,
         Gives (Token (py ''Two'')), Gives (Token (py ''Three'')), Stops]"
proof -
  have h: "\<forall>p\<in>set (lookaheads (py ''One Two Three'')). is_numeric_spec pvl_grammar p = Inr False"
    by code_simp
  have n: "Token (py ''Two'') \<noteq> PyNone"
    by simp
  from pushback[where is_numeric = "is_numeric_spec pvl_grammar" and t = "Token (py ''Two'')"
      and g = pvl_grammar and s = "py ''One Two Three''" and i = 6 and st = "(py ''Two'', False, None)"
      and w = PyNone] h n
  show ?thesis by blast
qed

section \<open>Reserved characters and numeric lookahead\<close>

text \<open>
  C1: when \<^verbatim>\<open>lex_char\<close> leaves a lexeme that is one reserved character, outside a
  comment, and the text ends there or the lookahead \<^verbatim>\<open>char + next_char\<close> does not
  classify as numeric, the lexer yields that character as a token at this index,
  whatever follows it.  With the base grammar and no numeric lookahead, \<^verbatim>\<open>Te=st\<close>
  gives the tokens \<^verbatim>\<open>Te\<close>, \<^verbatim>\<open>=\<close>, \<^verbatim>\<open>st\<close>.
\<close>

theorem reserved_char_token:
  "(i < length s \<and> prev_char s i = Inr p \<and>
    lex_char (s ! i) p (next_char s i) lexeme in_comment end_comment g ci = Inr ([r], False, ec) \<and>
    [r] \<in> set (reserved_characters g) \<and>
    (case next_char s i of None \<Rightarrow> True | Some n \<Rightarrow> is_numeric [s ! i, n] = Inr False)
    \<longrightarrow> scan is_numeric g ci s i (lexeme, in_comment, end_comment) =
          Yielded (Token [r]) (AtYieldToken i ([r], False, ec))) \<and>
   ((\<forall>u\<in>set (lookaheads (py ''Te=st'')). is_numeric u = Inr False)
    \<longrightarrow> list_lexer is_numeric (py ''Te=st'') pvl_grammar =
          Inr [Token (py ''Te''), Token (py ''=''), Token (py ''st'')])"
proof (intro conjI impI)
  assume "\<forall>u\<in>set (lookaheads (py ''Te=st'')). is_numeric u = Inr False"
  then show "list_lexer is_numeric (py ''Te=st'') pvl_grammar =
          Inr [Token (py ''Te''), Token (py ''=''), Token (py ''st'')]"
    by (simp add: lex_defs ci_pvl pvl_fields scan.simps drain.simps)
next
  assume a: "i < length s \<and> prev_char s i = Inr p \<and>
    lex_char (s ! i) p (next_char s i) lexeme in_comment end_comment g ci = Inr ([r], False, ec) \<and>
    [r] \<in> set (reserved_characters g) \<and>
    (case next_char s i of None \<Rightarrow> True | Some n \<Rightarrow> is_numeric [s ! i, n] = Inr False)"
  then have "boundary is_numeric g s i (s ! i) (next_char s i) ([r], False, ec) = Yield [r]"
    by (auto simp: boundary_def split: option.splits)
  with a show "scan is_numeric g ci s i (lexeme, in_comment, end_comment) =
          Yielded (Token [r]) (AtYieldToken i ([r], False, ec))"
    by (simp add: scan_step[where p = p and st' = "([r], False, ec)"])
qed

text \<open>The character \<^verbatim>\<open>=\<close> of \<^verbatim>\<open>Te=st\<close>, at index 2.\<close>

theorem reserved_char_token_witness:
  "scan (is_numeric_spec pvl_grammar) pvl_grammar (prepare_comment_tuples (comments pvl_grammar))
     (py ''Te=st'') 2 ([], False, None) = Yielded (Token (py ''='')) (AtYieldToken 2 (py ''='', False, None)) \<and>
   list_lexer (is_numeric_spec pvl_grammar) (py ''Te=st'') pvl_grammar =
     Inr [Token (py ''Te''), Token (py ''=''), Token (py ''st'')]"
proof -
  have h: "\<forall>u\<in>set (lookaheads (py ''Te=st'')). is_numeric_spec pvl_grammar u = Inr False"
    by code_simp
  have a: "2 < length (py ''Te=st'') \<and> prev_char (py ''Te=st'') 2 = Inr (Some 101) \<and>
    lex_char (py ''Te=st'' ! 2) (Some 101) (next_char (py ''Te=st'') 2) [] False None pvl_grammar
      (prepare_comment_tuples (comments pvl_grammar)) = Inr ([61], False, None) \<and>
    [61] \<in> set (reserved_characters pvl_grammar) \<and>
    (case next_char (py ''Te=st'') 2 of None \<Rightarrow> True
     | Some n \<Rightarrow> is_numeric_spec pvl_grammar [py ''Te=st'' ! 2, n] = Inr False)"
    by code_simp
  have e: "py ''='' = [61]"
    by (simp add: py_def)
  from reserved_char_token[where is_numeric = "is_numeric_spec pvl_grammar" and s = "py ''Te=st''"
      and i = 2 and p = "Some 101" and lexeme = "[]" and in_comment = False and end_comment = None
      and g = pvl_grammar and ci = "prepare_comment_tuples (comments pvl_grammar)" and r = 61
      and ec = None]
  have "scan (is_numeric_spec pvl_grammar) pvl_grammar (prepare_comment_tuples (comments pvl_grammar))
     (py ''Te=st'') 2 ([], False, None) = Yielded (Token [61]) (AtYieldToken 2 ([61], False, None))"
    and "list_lexer (is_numeric_spec pvl_grammar) (py ''Te=st'') pvl_grammar =
     Inr [Token (py ''Te''), Token (py ''=''), Token (py ''st'')]"
    using a h by blast+
  then show ?thesis by (simp add: e)
qed

text \<open>
  C3: when the lookahead \<^verbatim>\<open>char + next_char\<close> classifies as numeric the lexer does
  not yield: the loop goes on to the next index with the lexeme kept.  The sign
  \<^verbatim>\<open>+\<close> is a reserved character; when the lookaheads \<^verbatim>\<open>+7\<close> and \<^verbatim>\<open>79\<close> are the
  numeric ones of \<^verbatim>\<open>Number: +79\<close>, the base grammar gives \<^verbatim>\<open>Number:\<close> and \<^verbatim>\<open>+79\<close>.
\<close>

theorem numeric_lookahead_continues:
  "(i < length s \<and> prev_char s i = Inr p \<and>
    lex_char (s ! i) p (next_char s i) lexeme in_comment end_comment g ci = Inr st' \<and>
    next_char s i = Some n \<and> is_numeric [s ! i, n] = Inr True
    \<longrightarrow> boundary is_numeric g s i (s ! i) (next_char s i) st' = Continue \<and>
        scan is_numeric g ci s i (lexeme, in_comment, end_comment) = scan is_numeric g ci s (i + 1) st') \<and>
   py ''+'' \<in> set (reserved_characters pvl_grammar) \<and>
   ((\<forall>u\<in>set (lookaheads (py ''Number: +79'')). is_numeric u = Inr (u = py ''+7'' \<or> u = py ''79''))
    \<longrightarrow> list_lexer is_numeric (py ''Number: +79'') pvl_grammar =
          Inr [Token (py ''Number:''), Token (py ''+79'')])"
proof (intro conjI impI)
  assume "\<forall>u\<in>set (lookaheads (py ''Number: +79'')). is_numeric u = Inr (u = py ''+7'' \<or> u = py ''79'')"
  then show "list_lexer is_numeric (py ''Number: +79'') pvl_grammar =
          Inr [Token (py ''Number:''), Token (py ''+79'')]"
    by (simp add: lex_defs ci_pvl pvl_fields scan.simps drain.simps)
next
  show "py ''+'' \<in> set (reserved_characters pvl_grammar)"
    by (simp add: pvl_fields py_def)
next
  assume a: "i < length s \<and> prev_char s i = Inr p \<and>
    lex_char (s ! i) p (next_char s i) lexeme in_comment end_comment g ci = Inr st' \<and>
    next_char s i = Some n \<and> is_numeric [s ! i, n] = Inr True"
  then show b: "boundary is_numeric g s i (s ! i) (next_char s i) st' = Continue"
    by (cases st') (simp add: boundary_def)
  from a have "i < length s" and "prev_char s i = Inr p"
    and "lex_char (s ! i) p (next_char s i) lexeme in_comment end_comment g ci = Inr st'"
    by blast+
  from scan_step[OF this, of is_numeric] b show "scan is_numeric g ci s i (lexeme, in_comment, end_comment) = scan is_numeric g ci s (i + 1) st'"
    by simp
qed

text \<open>The sign of \<^verbatim>\<open>Number: +79\<close>, at index 8.\<close>

theorem numeric_lookahead_continues_witness:
  "scan (is_numeric_spec pvl_grammar) pvl_grammar (prepare_comment_tuples (comments pvl_grammar))
     (py ''Number: +79'') 8 ([], False, None) =
   scan (is_numeric_spec pvl_grammar) pvl_grammar (prepare_comment_tuples (comments pvl_grammar))
     (py ''Number: +79'') 9 (py ''+'', False, None) \<and>
   list_lexer (is_numeric_spec pvl_grammar) (py ''Number: +79'') pvl_grammar =
     Inr [Token (py ''Number:''), Token (py ''+79'')]"
proof -
  have h: "\<forall>u\<in>set (lookaheads (py ''Number: +79'')).
             is_numeric_spec pvl_grammar u = Inr (u = py ''+7'' \<or> u = py ''79'')"
    by code_simp
  have a: "8 < length (py ''Number: +79'') \<and> prev_char (py ''Number: +79'') 8 = Inr (Some 32) \<and>
    lex_char (py ''Number: +79'' ! 8) (Some 32) (next_char (py ''Number: +79'') 8) [] False None pvl_grammar
      (prepare_comment_tuples (comments pvl_grammar)) = Inr (py ''+'', False, None) \<and>
    next_char (py ''Number: +79'') 8 = Some 55 \<and>
    is_numeric_spec pvl_grammar [py ''Number: +79'' ! 8, 55] = Inr True"
    by code_simp
  from numeric_lookahead_continues[where is_numeric = "is_numeric_spec pvl_grammar"
      and s = "py ''Number: +79''" and i = 8 and p = "Some 32" and lexeme = "[]"
      and in_comment = False and end_comment = None and g = pvl_grammar
      and ci = "prepare_comment_tuples (comments pvl_grammar)" and st' = "(py ''+'', False, None)"
      and n = 55]
  have "scan (is_numeric_spec pvl_grammar) pvl_grammar (prepare_comment_tuples (comments pvl_grammar))
     (py ''Number: +79'') 8 ([], False, None) =
   scan (is_numeric_spec pvl_grammar) pvl_grammar (prepare_comment_tuples (comments pvl_grammar))
     (py ''Number: +79'') (8 + 1) (py ''+'', False, None)"
    and "list_lexer (is_numeric_spec pvl_grammar) (py ''Number: +79'') pvl_grammar =
     Inr [Token (py ''Number:''), Token (py ''+79'')]"
    using a h by blast+
  then show ?thesis by simp
qed

section \<open>Texts separated by whitespace only\<close>








lemma prev_char_Inr: "i < length s \<Longrightarrow> prev_char s i = Inr (if i = 0 then None else Some (s ! (i - 1)))"
  by (auto simp add: prev_char_def)

lemma lookaheads_member: "i + 1 < length s \<Longrightarrow> [s ! i, s ! (i + 1)] \<in> set (lookaheads s)"
  by (auto simp: lookaheads_def image_iff intro!: bexI[of _ i])













lemma multi_chars_subset_chars:
  "multi_chars (prepare_comment_tuples cmts) \<subseteq> chars (prepare_comment_tuples cmts)"
  by (simp add: prepare_comment_tuples_def Let_def)

lemma multi_chars_nonempty_table:
  "c \<in> multi_chars (prepare_comment_tuples cmts) \<Longrightarrow> cmts \<noteq> []"
  by (auto simp: prepare_comment_tuples_def)











section \<open>The offset of a lexical error\<close>

text \<open>
  \<^verbatim>\<open>gen.throw(ValueError(m))\<close>: the exception is raised where the generator is
  suspended.  Every \<^verbatim>\<open>yield\<close> of the lexer stands inside the \<^verbatim>\<open>try\<close> block, so the
  \<^verbatim>\<open>except\<close> clause turns it into a \<^verbatim>\<open>LexerError\<close> at \<^verbatim>\<open>i - len(lexeme)\<close>; a generator
  that has not started, or has finished, lets it through.
\<close>

definition throw :: "pystr \<Rightarrow> gen \<Rightarrow> string \<Rightarrow> step" where
  "throw s gen m =
     (case gen of
        NotStarted \<Rightarrow> Raised (ValueError m) Finished
      | AtYieldToken i st \<Rightarrow> Raised (LexerErr (LexerError m s (int i - int (length (fst st))))) Finished
      | AtYieldNone t i st \<Rightarrow> Raised (LexerErr (LexerError m s (int i - int (length (fst st))))) Finished
      | AtYieldBack i st \<Rightarrow> Raised (LexerErr (LexerError m s (int i - int (length (fst st))))) Finished
      | Finished \<Rightarrow> Raised (ValueError m) Finished)"

text \<open>
  For an offset within the text the error names the line and the column of the
  offset, both counted from 1: the line is one more than the number of newlines before
  the offset, the column is the distance from the last newline before the offset, or
  from just before the start of the text on the first line.  The arguments
  \<^verbatim>\<open>__reduce__\<close> keeps give the same error again.
\<close>

lemma rfind_some:
  "filter P (rev [0..<n]) = j # js \<Longrightarrow> j < n \<and> P j \<and> (\<forall>k. j < k \<and> k < n \<longrightarrow> \<not> P k)"
proof (induction n)
  case 0
  then show ?case by simp
next
  case (Suc n)
  show ?case
  proof (cases "P n")
    case True
    with Suc.prems show ?thesis by auto
  next
    case False
    with Suc.prems have "filter P (rev [0..<n]) = j # js" by simp
    from Suc.IH[OF this] False show ?thesis
      by (auto simp: less_Suc_eq)
  qed
qed

lemma slice_bound_within: "0 \<le> p \<Longrightarrow> p \<le> int (length d) \<Longrightarrow> slice_bound (length d) p = nat p"
  by (simp add: slice_bound_def)

lemma count_take:
  "n \<le> length d \<Longrightarrow> length (filter (\<lambda>j. d ! j = c) [0..<n]) = length (filter (\<lambda>x. x = c) (take n d))"
proof (induction n)
  case 0
  then show ?case by simp
next
  case (Suc n)
  then show ?case by (simp add: take_Suc_conv_app_nth)
qed

lemma LexerError_rebuild: "rebuild (reduce (LexerError m d p)) = LexerError m d p"
  by (simp add: rebuild_def reduce_def LexerError_def Let_def)

lemma LexerError_lineno:
  assumes "0 \<le> p" "p \<le> int (length d)"
  shows "lineno (LexerError m d p) = int (length (filter (\<lambda>c. c = newline) (take (nat p) d))) + 1"
  using assms count_take[of "nat p" d newline]
  by (simp add: LexerError_def Let_def str_count_def slice_bound_def)

lemma LexerError_colno_first_line:
  assumes "0 \<le> p" "p \<le> int (length d)" "newline \<notin> set (take (nat p) d)"
  shows "colno (LexerError m d p) = p + 1"
proof -
  have "\<forall>j<nat p. d ! j \<noteq> newline"
    using assms by (auto simp: in_set_conv_nth)
  hence "filter (\<lambda>j. d ! j = newline) (rev [0..<nat p]) = []"
    by (simp add: filter_empty_conv)
  with assms show ?thesis
    by (simp add: LexerError_def Let_def str_rfind_def slice_bound_def)
qed

lemma LexerError_colno_later_line:
  assumes "0 \<le> p" "p \<le> int (length d)" "newline \<in> set (take (nat p) d)"
  shows "\<exists>j<nat p. d ! j = newline \<and> (\<forall>k. j < k \<and> k < nat p \<longrightarrow> d ! k \<noteq> newline) \<and>
           colno (LexerError m d p) = p - int j"
proof -
  from assms obtain i where "i < nat p" "d ! i = newline"
    by (auto simp: in_set_conv_nth)
  hence "filter (\<lambda>j. d ! j = newline) (rev [0..<nat p]) \<noteq> []"
    by (auto simp: filter_empty_conv)
  then obtain j js where f: "filter (\<lambda>j. d ! j = newline) (rev [0..<nat p]) = j # js"
    by (cases "filter (\<lambda>j. d ! j = newline) (rev [0..<nat p])") auto
  from rfind_some[OF f] have j: "j < nat p" "d ! j = newline" "\<forall>k. j < k \<and> k < nat p \<longrightarrow> d ! k \<noteq> newline"
    by auto
  from assms f have "colno (LexerError m d p) = p - int j"
    by (simp add: LexerError_def Let_def str_rfind_def slice_bound_def)
  with j show ?thesis by blast
qed

text \<open>
  C8: the line and the column of a lexical error should be those of the offset, counted
  from 1.  The lexer hands \<^verbatim>\<open>i - len(lexeme)\<close> to \<^verbatim>\<open>LexerError\<close>, one less than the
  index at which the lexeme starts; for a lexeme that starts the text this is \<open>-1\<close>,
  which \<^verbatim>\<open>count\<close> and \<^verbatim>\<open>rfind\<close> read as the last index of the text.  In the text
  \<^verbatim>\<open>ab\<close>, newline, \<^verbatim>\<open>cd\<close> a \<^verbatim>\<open>ValueError\<close> in the first lexeme, raised by the
  classification of the first lookahead or thrown in by the consumer after the first
  token, is reported at line 2, column -3.
\<close>

theorem lexer_error_offset_before_start:
  "list_lexer (\<lambda>u. Inl ''bad'') (py ''ab'' @ [newline] @ py ''cd'') pvl_grammar =
     Inl (LexerErr \<lparr>errmsg = ''bad: line 2 column -3 (char -1)'', msg = ''bad'',
                    doc = py ''ab'' @ [newline] @ py ''cd'', pos = - 1, lineno = 2, colno = - 3\<rparr>) \<and>
   send (is_numeric_spec pvl_grammar) pvl_grammar (py ''ab'' @ [newline] @ py ''cd'') NotStarted PyNone =
     Yielded (Token (py ''ab'')) (AtYieldToken 1 (py ''ab'', False, None)) \<and>
   throw (py ''ab'' @ [newline] @ py ''cd'') (AtYieldToken 1 (py ''ab'', False, None)) ''bad'' =
     Raised (LexerErr \<lparr>errmsg = ''bad: line 2 column -3 (char -1)'', msg = ''bad'',
                    doc = py ''ab'' @ [newline] @ py ''cd'', pos = - 1, lineno = 2, colno = - 3\<rparr>) Finished"
  by code_simp

section \<open>Errors of the comment table\<close>

text \<open>
  A table is unsupported when it holds a pair whose opener is not one character long
  and which is not \<^verbatim>\<open>/* */\<close>.  \<^verbatim>\<open>lex_multichar_comments\<close> then raises
  \<^verbatim>\<open>NotImplementedError\<close>, and the lexer calls it at every character of the text that
  belongs to a delimiter of several characters.
\<close>

lemma lex_multichar_comments_empty:
  "lex_multichar_comments c p n l ic ec [] = Inl (ValueError ''The variable provided to comments is empty.'')"
  by (simp add: lex_multichar_comments_def)

lemma lex_multichar_comments_unsupported:
  "list_ex (\<lambda>q. length (fst q) \<noteq> 1 \<and> q \<notin> set allowed_pairs) cmts \<Longrightarrow>
     lex_multichar_comments c p n l ic ec cmts = Inl NotImplementedError"
  by (auto simp: lex_multichar_comments_def list_ex_iff)

lemma lex_char_unsupported:
  assumes u: "list_ex (\<lambda>q. length (fst q) \<noteq> 1 \<and> q \<notin> set allowed_pairs) (comments g)"
    and l: "lex_char c p n lexeme in_comment end_comment g ci = Inl e"
  shows "e = NotImplementedError"
  using l lex_multichar_comments_unsupported[OF u]
  by (simp add: lex_char_def lex_comment_def split: if_splits)

lemma scan_unsupported:
  assumes i: "i < length s"
    and c: "s ! i \<in> multi_chars (prepare_comment_tuples (comments g))"
    and u: "list_ex (\<lambda>q. length (fst q) \<noteq> 1 \<and> q \<notin> set allowed_pairs) (comments g)"
  shows "scan is_numeric g (prepare_comment_tuples (comments g)) s i (lexeme, in_comment, end_comment) =
           Raised NotImplementedError Finished"
proof -
  from c have "s ! i \<in> chars (prepare_comment_tuples (comments g))"
    using multi_chars_subset_chars by blast
  with c have "lex_char (s ! i) p (next_char s i) lexeme in_comment end_comment g
                 (prepare_comment_tuples (comments g)) = Inl NotImplementedError" for p
    using lex_multichar_comments_unsupported[OF u]
    by (simp add: lex_char_def lex_comment_def)
  with i show ?thesis
    by (subst scan.simps) (simp add: prev_char_Inr)
qed

text \<open>
  Before the loop reaches such a character at index \<open>k\<close> it may yield a token or raise
  a \<^verbatim>\<open>LexerError\<close>, the latter only when the classification of a lookahead raises.
\<close>

lemma boundary_Raise:
  "boundary is_numeric g s i (s ! i) (next_char s i) st = Raise e \<Longrightarrow>
     (\<exists>le. e = LexerErr le) \<and> (\<exists>u\<in>set (lookaheads s). \<exists>m. is_numeric u = Inl m)"
proof -
  assume b: "boundary is_numeric g s i (s ! i) (next_char s i) st = Raise e"
  obtain lexeme in_comment end_comment where st: "st = (lexeme, in_comment, end_comment)"
    by (cases st) auto
  from b st obtain n where n: "next_char s i = Some n"
    by (cases "next_char s i") (auto simp: boundary_def split: if_splits)
  then have i: "i + 1 < length s" and nn: "n = s ! (i + 1)"
    by (auto simp: next_char_def split: if_splits)
  from b st n obtain m where m: "is_numeric [s ! i, n] = Inl m" and e: "\<exists>le. e = LexerErr le"
    by (cases "is_numeric [s ! i, n]") (auto simp: boundary_def split: if_splits)
  from lookaheads_member[OF i] m nn have "\<exists>u\<in>set (lookaheads s). \<exists>m. is_numeric u = Inl m"
    by blast
  with e show ?thesis by blast
qed

lemma scan_before:
  assumes k: "k < length s" "s ! k \<in> multi_chars (prepare_comment_tuples (comments g))"
    and u: "list_ex (\<lambda>q. length (fst q) \<noteq> 1 \<and> q \<notin> set allowed_pairs) (comments g)"
  shows "i \<le> k \<Longrightarrow>
     scan is_numeric g (prepare_comment_tuples (comments g)) s i st = Raised NotImplementedError Finished \<or>
     (\<exists>le. scan is_numeric g (prepare_comment_tuples (comments g)) s i st = Raised (LexerErr le) Finished \<and>
           (\<exists>u\<in>set (lookaheads s). \<exists>m. is_numeric u = Inl m)) \<or>
     (\<exists>v j st'. scan is_numeric g (prepare_comment_tuples (comments g)) s i st = Yielded v (AtYieldToken j st') \<and>
           i \<le> j \<and> j < k)"
proof (induction "k - i" arbitrary: i st)
  case 0
  then have "i = k" by simp
  with scan_unsupported[OF k u, of is_numeric "fst st" "fst (snd st)" "snd (snd st)"] show ?case
    by simp
next
  case (Suc d)
  then have ik: "i < k" and i: "i < length s" using k(1) by simp_all
  obtain lexeme in_comment end_comment where st: "st = (lexeme, in_comment, end_comment)"
    by (cases st) auto
  note p = prev_char_Inr[OF i]
  show ?case
  proof (cases "lex_char (s ! i) (if i = 0 then None else Some (s ! (i - 1))) (next_char s i)
                  lexeme in_comment end_comment g (prepare_comment_tuples (comments g))")
    case (Inl e)
    from lex_char_unsupported[OF u Inl] have "e = NotImplementedError" .
    with Inl i p have "scan is_numeric g (prepare_comment_tuples (comments g)) s i st =
        Raised NotImplementedError Finished"
      unfolding st by (subst scan.simps) simp
    then show ?thesis by blast
  next
    case (Inr st')
    note step = scan_step[OF i p Inr, of is_numeric, folded st]
    show ?thesis
    proof (cases "boundary is_numeric g s i (s ! i) (next_char s i) st'")
      case (Yield tok)
      with step ik have "scan is_numeric g (prepare_comment_tuples (comments g)) s i st =
          Yielded (Token tok) (AtYieldToken i st') \<and> i \<le> i \<and> i < k"
        by simp
      then show ?thesis by blast
    next
      case Continue
      with step have e: "scan is_numeric g (prepare_comment_tuples (comments g)) s i st =
          scan is_numeric g (prepare_comment_tuples (comments g)) s (i + 1) st'"
        by simp
      have d: "d = k - (i + 1)" using Suc.hyps(2) by simp
      from ik have "i + 1 \<le> k" by simp
      from Suc.hyps(1)[OF d this, of st'] show ?thesis
        unfolding e by (elim disjE exE conjE) (simp_all, fastforce)
    next
      case (Raise x)
      from boundary_Raise[OF Raise] obtain le where
        "x = LexerErr le" "\<exists>u\<in>set (lookaheads s). \<exists>m. is_numeric u = Inl m"
        by blast
      with Raise step show ?thesis by simp
    qed
  qed
qed

lemma drain_before:
  assumes k: "k < length s" "s ! k \<in> multi_chars (prepare_comment_tuples (comments g))"
    and u: "list_ex (\<lambda>q. length (fst q) \<noteq> 1 \<and> q \<notin> set allowed_pairs) (comments g)"
  shows "gen = NotStarted \<or> (\<exists>j st. gen = AtYieldToken j st \<and> j < k) \<Longrightarrow>
     drain is_numeric g s gen = Inl NotImplementedError \<or>
     (\<exists>le. drain is_numeric g s gen = Inl (LexerErr le) \<and>
           (\<exists>u\<in>set (lookaheads s). \<exists>m. is_numeric u = Inl m))"
proof (induction "gen_measure s gen" arbitrary: gen rule: less_induct)
  case less
  define ci where "ci = prepare_comment_tuples (comments g)"
  from less.prems obtain i st where
    s: "send is_numeric g s gen PyNone = scan is_numeric g ci s i st" and i: "i \<le> k"
  proof
    assume "gen = NotStarted"
    then have "send is_numeric g s gen PyNone = scan is_numeric g ci s 0 ([], False, None)"
      by (simp add: ci_def)
    with that show ?thesis by blast
  next
    assume "\<exists>j st. gen = AtYieldToken j st \<and> j < k"
    then obtain j l ic ec where "gen = AtYieldToken j (l, ic, ec)" "j < k"
      by auto
    then have "send is_numeric g s gen PyNone = scan is_numeric g ci s (j + 1) ([], ic, ec)" "j + 1 \<le> k"
      by (simp_all add: resume_def ci_def)
    with that show ?thesis by blast
  qed
  from scan_before[OF k u i, of is_numeric st, folded ci_def]
  consider (a) "scan is_numeric g ci s i st = Raised NotImplementedError Finished"
    | (b) le where "scan is_numeric g ci s i st = Raised (LexerErr le) Finished"
        "\<exists>u\<in>set (lookaheads s). \<exists>m. is_numeric u = Inl m"
    | (c) v j st' where "scan is_numeric g ci s i st = Yielded v (AtYieldToken j st')" "j < k"
    by blast
  then show ?case
  proof cases
    case a
    with s show ?thesis
      by (subst drain.simps) simp
  next
    case b
    with s have "drain is_numeric g s gen = Inl (LexerErr le)"
      by (subst drain.simps) simp
    with b(2) show ?thesis by blast
  next
    case c
    with s have y: "send is_numeric g s gen PyNone = Yielded v (AtYieldToken j st')"
      by simp
    from send_decreases[OF y] c(2)
    have IH: "drain is_numeric g s (AtYieldToken j st') = Inl NotImplementedError \<or>
       (\<exists>le. drain is_numeric g s (AtYieldToken j st') = Inl (LexerErr le) \<and>
           (\<exists>u\<in>set (lookaheads s). \<exists>m. is_numeric u = Inl m))"
      by (intro less.hyps) blast+
    have "drain is_numeric g s gen =
        (case drain is_numeric g s (AtYieldToken j st') of Inl e \<Rightarrow> Inl e | Inr vs \<Rightarrow> Inr (v # vs))"
      by (subst drain.simps) (simp add: y)
    with IH show ?thesis by auto
  qed
qed

lemma list_lexer_unsupported:
  assumes u: "list_ex (\<lambda>q. length (fst q) \<noteq> 1 \<and> q \<notin> set allowed_pairs) (comments g)"
    and c: "\<exists>c\<in>set s. c \<in> multi_chars (prepare_comment_tuples (comments g))"
    and h: "\<forall>u\<in>set (lookaheads s). \<exists>b. is_numeric u = Inr b"
  shows "list_lexer is_numeric s g = Inl NotImplementedError"
proof -
  from c obtain k where k: "k < length s" "s ! k \<in> multi_chars (prepare_comment_tuples (comments g))"
    by (auto simp: in_set_conv_nth)
  from drain_before[OF k u, of NotStarted is_numeric] h show ?thesis
    unfolding list_lexer_def by fastforce
qed

text \<open>On a text without such a character the comment table raises nothing.\<close>

lemma scan_Raised:
  "scan is_numeric g ci s i st = Raised e gen' \<Longrightarrow> \<forall>c\<in>set s. c \<notin> multi_chars ci \<Longrightarrow>
     \<exists>le. e = LexerErr le"
proof (induction is_numeric g ci s i st rule: scan.induct)
  case (1 is_numeric g ci s i st)
  obtain lexeme in_comment end_comment where st: "st = (lexeme, in_comment, end_comment)"
    by (cases st) auto
  from "1.prems"(1) have i: "i < length s"
    by (subst (asm) scan.simps) (simp split: if_splits)
  note p = prev_char_Inr[OF i]
  from i "1.prems"(2) have "s ! i \<notin> multi_chars ci" by simp
  then have "\<exists>st'. lex_char (s ! i) (if i = 0 then None else Some (s ! (i - 1))) (next_char s i)
                  lexeme in_comment end_comment g ci = Inr st'"
    by (simp add: lex_char_def lex_comment_def del: split_paired_Ex)
  then obtain st' where
    l: "lex_char (s ! i) (if i = 0 then None else Some (s ! (i - 1))) (next_char s i) lexeme in_comment end_comment g ci = Inr st'"
    by blast
  show ?case
  proof (cases "boundary is_numeric g s i (s ! i) (next_char s i) st'")
    case (Yield tok)
    with "1.prems"(1) show ?thesis
      by (simp add: st scan_step[OF i p l])
  next
    case Continue
    with "1.prems"(1) have "scan is_numeric g ci s (i + 1) st' = Raised e gen'"
      by (simp add: st scan_step[OF i p l])
    from "1.IH"[OF i st[symmetric] refl p l Continue this "1.prems"(2)] show ?thesis .
  next
    case (Raise x)
    then have "\<exists>le. x = LexerErr le"
      by (auto simp: boundary_def split: prod.splits if_splits option.splits sum.splits)
    with Raise "1.prems"(1) show ?thesis
      by (simp add: st scan_step[OF i p l])
  qed
qed

lemma send_None_Raised:
  assumes "\<forall>c\<in>set s. c \<notin> multi_chars (prepare_comment_tuples (comments g))"
    and "send is_numeric g s gen PyNone = Raised e gen'"
  shows "\<exists>le. e = LexerErr le"
  using assms scan_Raised[of is_numeric g "prepare_comment_tuples (comments g)" s _ _ e gen']
  by (cases gen) (auto simp: resume_def split: prod.splits)

lemma drain_Raised:
  "drain is_numeric g s gen = Inl e \<Longrightarrow>
   \<forall>c\<in>set s. c \<notin> multi_chars (prepare_comment_tuples (comments g)) \<Longrightarrow> \<exists>le. e = LexerErr le"
proof (induction is_numeric g s gen rule: drain.induct)
  case (1 is_numeric g s gen)
  show ?case
  proof (cases "send is_numeric g s gen PyNone")
    case (Yielded v gen')
    with "1.prems"(1) have "drain is_numeric g s gen' = Inl e"
      by (subst (asm) drain.simps) (auto split: sum.splits)
    from "1.IH"[OF Yielded this "1.prems"(2)] show ?thesis .
  next
    case StopIteration
    with "1.prems"(1) show ?thesis
      by (subst (asm) drain.simps) auto
  next
    case (Raised x gen')
    with "1.prems"(1) have "x = e"
      by (subst (asm) drain.simps) auto
    with send_None_Raised[OF "1.prems"(2) Raised] show ?thesis by simp
  qed
qed

text \<open>
  C4, as amended.  Nothing is checked when the lexer is made.  The guard stands in
  \<^verbatim>\<open>lex_multichar_comments\<close>: called with an empty table it raises \<^verbatim>\<open>ValueError\<close>,
  called with a table that holds a pair of several characters other than \<^verbatim>\<open>/* */\<close>
  it raises \<^verbatim>\<open>NotImplementedError\<close>.  The lexer calls it while it scans, at a
  character that belongs to a delimiter of several characters.  So with such a table
  the loop raises \<^verbatim>\<open>NotImplementedError\<close> on reaching such a character, whatever
  lexeme it holds there, and \<^verbatim>\<open>list(lexer(s, g))\<close> raises it for every text with such
  a character when the classification answers every lookahead.  On a text without such
  a character, and always with an empty table, the only exception
  \<^verbatim>\<open>list(lexer(s, g))\<close> can raise is a \<^verbatim>\<open>LexerError\<close>.
\<close>

theorem comment_table_errors:
  "lex_multichar_comments c p n l ic ec [] =
     Inl (ValueError ''The variable provided to comments is empty.'') \<and>
   (list_ex (\<lambda>q. length (fst q) \<noteq> 1 \<and> q \<notin> set allowed_pairs) cmts
      \<longrightarrow> lex_multichar_comments c p n l ic ec cmts = Inl NotImplementedError) \<and>
   (list_ex (\<lambda>q. length (fst q) \<noteq> 1 \<and> q \<notin> set allowed_pairs) (comments g) \<and>
    i < length s \<and> s ! i \<in> multi_chars (prepare_comment_tuples (comments g))
      \<longrightarrow> scan is_numeric g (prepare_comment_tuples (comments g)) s i (lexeme, in_comment, end_comment) =
            Raised NotImplementedError Finished) \<and>
   (list_ex (\<lambda>q. length (fst q) \<noteq> 1 \<and> q \<notin> set allowed_pairs) (comments g) \<and>
    (\<exists>x\<in>set s. x \<in> multi_chars (prepare_comment_tuples (comments g))) \<and>
    (\<forall>u\<in>set (lookaheads s). \<exists>b. is_numeric u = Inr b)
      \<longrightarrow> list_lexer is_numeric s g = Inl NotImplementedError) \<and>
   ((\<forall>x\<in>set s. x \<notin> multi_chars (prepare_comment_tuples (comments g))) \<and>
    list_lexer is_numeric s g = Inl e
      \<longrightarrow> (\<exists>le. e = LexerErr le)) \<and>
   (comments g = [] \<and> list_lexer is_numeric s g = Inl e \<longrightarrow> (\<exists>le. e = LexerErr le))"
proof (intro conjI impI)
  show "lex_multichar_comments c p n l ic ec [] =
     Inl (ValueError ''The variable provided to comments is empty.'')"
    by (rule lex_multichar_comments_empty)
next
  assume "list_ex (\<lambda>q. length (fst q) \<noteq> 1 \<and> q \<notin> set allowed_pairs) cmts"
  then show "lex_multichar_comments c p n l ic ec cmts = Inl NotImplementedError"
    by (rule lex_multichar_comments_unsupported)
next
  assume "list_ex (\<lambda>q. length (fst q) \<noteq> 1 \<and> q \<notin> set allowed_pairs) (comments g) \<and>
    i < length s \<and> s ! i \<in> multi_chars (prepare_comment_tuples (comments g))"
  then show "scan is_numeric g (prepare_comment_tuples (comments g)) s i (lexeme, in_comment, end_comment) =
            Raised NotImplementedError Finished"
    using scan_unsupported by blast
next
  assume "list_ex (\<lambda>q. length (fst q) \<noteq> 1 \<and> q \<notin> set allowed_pairs) (comments g) \<and>
    (\<exists>x\<in>set s. x \<in> multi_chars (prepare_comment_tuples (comments g))) \<and>
    (\<forall>u\<in>set (lookaheads s). \<exists>b. is_numeric u = Inr b)"
  then show "list_lexer is_numeric s g = Inl NotImplementedError"
    using list_lexer_unsupported by blast
next
  assume "(\<forall>x\<in>set s. x \<notin> multi_chars (prepare_comment_tuples (comments g))) \<and>
    list_lexer is_numeric s g = Inl e"
  then show "\<exists>le. e = LexerErr le"
    using drain_Raised[of is_numeric g s NotStarted e] by (simp add: list_lexer_def)
next
  assume a: "comments g = [] \<and> list_lexer is_numeric s g = Inl e"
  then have "\<forall>x\<in>set s. x \<notin> multi_chars (prepare_comment_tuples (comments g))"
    by (simp add: prepare_comment_tuples_def)
  with a show "\<exists>le. e = LexerErr le"
    using drain_Raised[of is_numeric g s NotStarted e] by (simp add: list_lexer_def)
qed

text \<open>
  The table that holds the pair \<^verbatim>\<open><!-- -->\<close> alone: the lexeme \<^verbatim>\<open>ab\<close> is lost at the
  \<^verbatim>\<open>-\<close> of \<^verbatim>\<open>ab-cd\<close>.  An empty table with a classification that raises.
\<close>

theorem comment_table_errors_witness:
  "lex_multichar_comments star (Some slash) None [] False None [(py ''<!--'', py ''-->'')] = Inl NotImplementedError \<and>
   scan (is_numeric_spec pvl_grammar) (pvl_grammar\<lparr>comments := [(py ''<!--'', py ''-->'')]\<rparr>)
     (prepare_comment_tuples (comments (pvl_grammar\<lparr>comments := [(py ''<!--'', py ''-->'')]\<rparr>)))
     (py ''ab-cd'') 2 (py ''ab'', False, None) = Raised NotImplementedError Finished \<and>
   list_lexer (is_numeric_spec pvl_grammar) (py ''ab-cd'') (pvl_grammar\<lparr>comments := [(py ''<!--'', py ''-->'')]\<rparr>) =
     Inl NotImplementedError \<and>
   list_lexer (\<lambda>u. Inl ''bad'') (py ''ab'') (pvl_grammar\<lparr>comments := []\<rparr>) =
     Inl (LexerErr (LexerError ''bad'' (py ''ab'') (- 1))) \<and>
   (\<exists>le. LexerErr (LexerError ''bad'' (py ''ab'') (- 1)) = LexerErr le)"
proof -
  have 1: "list_ex (\<lambda>q. length (fst q) \<noteq> 1 \<and> q \<notin> set allowed_pairs) [(py ''<!--'', py ''-->'')]"
    by code_simp
  have 2: "list_ex (\<lambda>q. length (fst q) \<noteq> 1 \<and> q \<notin> set allowed_pairs)
       (comments (pvl_grammar\<lparr>comments := [(py ''<!--'', py ''-->'')]\<rparr>)) \<and>
     2 < length (py ''ab-cd'') \<and>
     py ''ab-cd'' ! 2 \<in> multi_chars (prepare_comment_tuples (comments (pvl_grammar\<lparr>comments := [(py ''<!--'', py ''-->'')]\<rparr>)))"
    by code_simp
  have 3: "list_ex (\<lambda>q. length (fst q) \<noteq> 1 \<and> q \<notin> set allowed_pairs)
       (comments (pvl_grammar\<lparr>comments := [(py ''<!--'', py ''-->'')]\<rparr>)) \<and>
     (\<exists>x\<in>set (py ''ab-cd''). x \<in> multi_chars (prepare_comment_tuples (comments (pvl_grammar\<lparr>comments := [(py ''<!--'', py ''-->'')]\<rparr>)))) \<and>
     (\<forall>u\<in>set (lookaheads (py ''ab-cd'')). \<exists>b. is_numeric_spec pvl_grammar u = Inr b)"
  proof (intro conjI)
    show "\<forall>u\<in>set (lookaheads (py ''ab-cd'')). \<exists>b. is_numeric_spec pvl_grammar u = Inr b"
      by (simp add: is_numeric_spec_def)
  qed code_simp+
  have 4: "(\<forall>x\<in>set (py ''ab''). x \<notin> multi_chars (prepare_comment_tuples (comments (pvl_grammar\<lparr>comments := []\<rparr>)))) \<and>
     list_lexer (\<lambda>u. Inl ''bad'') (py ''ab'') (pvl_grammar\<lparr>comments := []\<rparr>) =
       Inl (LexerErr (LexerError ''bad'' (py ''ab'') (- 1)))"
    by code_simp
  have 5: "comments (pvl_grammar\<lparr>comments := []\<rparr>) = [] \<and>
     list_lexer (\<lambda>u. Inl ''bad'') (py ''ab'') (pvl_grammar\<lparr>comments := []\<rparr>) =
       Inl (LexerErr (LexerError ''bad'' (py ''ab'') (- 1)))"
    by code_simp
  note T = comment_table_errors[where c = star and p = "Some slash" and n = None and l = "[]" and ic = False
      and ec = None and cmts = "[(py ''<!--'', py ''-->'')]" and is_numeric = "is_numeric_spec pvl_grammar"
      and g = "pvl_grammar\<lparr>comments := [(py ''<!--'', py ''-->'')]\<rparr>" and s = "py ''ab-cd''" and i = 2
      and lexeme = "py ''ab''" and in_comment = False and end_comment = None]
  note U = comment_table_errors[where is_numeric = "\<lambda>u. Inl ''bad''" and s = "py ''ab''"
      and g = "pvl_grammar\<lparr>comments := []\<rparr>" and e = "LexerErr (LexerError ''bad'' (py ''ab'') (- 1))"]
  note a = mp[OF T[THEN conjunct2, THEN conjunct1] 1]
  note b = mp[OF T[THEN conjunct2, THEN conjunct2, THEN conjunct1] 2]
  note c = mp[OF T[THEN conjunct2, THEN conjunct2, THEN conjunct2, THEN conjunct1] 3]
  note d = mp[OF U[THEN conjunct2, THEN conjunct2, THEN conjunct2, THEN conjunct2, THEN conjunct1] 4]
  note d' = mp[OF U[THEN conjunct2, THEN conjunct2, THEN conjunct2, THEN conjunct2, THEN conjunct2] 5]
  from a b c 4[THEN conjunct2] d show ?thesis by (intro conjI)
qed

text \<open>
  C4 as stated fails: with an empty table the lexer raises nothing and lexes
  \<^verbatim>\<open>a /* b */\<close> into four tokens; with the pair \<^verbatim>\<open><!-- -->\<close> the token \<^verbatim>\<open>a\<close> of
  \<^verbatim>\<open>a <!-- b -->\<close> is produced before the error is raised, and \<^verbatim>\<open>a b\<close> is lexed
  without any error.
\<close>

theorem config_error_counterexample:
  "list_lexer (is_numeric_spec pvl_grammar) (py ''a /* b */'') (pvl_grammar\<lparr>comments := []\<rparr>) =
     Inr [Token (py ''a''), Token (py ''/*''), Token (py ''b''), Token (py ''*/'')] \<and>
   sends (is_numeric_spec pvl_grammar) (pvl_grammar\<lparr>comments := [(py ''<!--'', py ''-->'')]\<rparr>)
     (py ''a <!-- b -->'') NotStarted [PyNone, PyNone] =
     [Gives (Token (py ''a'')), Raises NotImplementedError] \<and>
   list_lexer (is_numeric_spec pvl_grammar) (py ''a b'') (pvl_grammar\<lparr>comments := [(py ''<!--'', py ''-->'')]\<rparr>) =
     Inr [Token (py ''a''), Token (py ''b'')]"
  by code_simp

section \<open>Comments\<close>

text \<open>The slice \<^verbatim>\<open>s[a:b]\<close> for indices within the text.\<close>

definition slice :: "pystr \<Rightarrow> nat \<Rightarrow> nat \<Rightarrow> pystr" where
  "slice s a b = take (b - a) (drop a s)"

lemma slice_snoc: "a \<le> b \<Longrightarrow> b < length s \<Longrightarrow> slice s a (b + 1) = slice s a b @ [s ! b]"
proof -
  assume ab: "a \<le> b" and b: "b < length s"
  then have "b - a < length (drop a s)" by simp
  then have "take (Suc (b - a)) (drop a s) = take (b - a) (drop a s) @ [drop a s ! (b - a)]"
    by (rule take_Suc_conv_app_nth)
  moreover from ab b have "drop a s ! (b - a) = s ! b" by simp
  moreover from ab have "b + 1 - a = Suc (b - a)" by simp
  ultimately show ?thesis by (simp add: slice_def)
qed

lemma slice_one: "a < length s \<Longrightarrow> slice s a (a + 1) = [s ! a]"
  using slice_snoc[of a a s] by (simp add: slice_def)

lemma slice_end: "slice s a (length s) = drop a s"
  by (simp add: slice_def)

lemma slice_nonempty: "a < b \<Longrightarrow> a < length s \<Longrightarrow> slice s a b \<noteq> []"
  by (simp add: slice_def)

text \<open>
  Inside a comment the character at index \<open>k\<close> is appended to the lexeme, and the
  comment goes on, when it is no character of a longer delimiter and does not close the
  comment; or, under the table that holds only \<^verbatim>\<open>/* */\<close>, when it is a \<^verbatim>\<open>*\<close> with no
  \<^verbatim>\<open>/\<close> beside it or a \<^verbatim>\<open>/\<close> with no \<^verbatim>\<open>*\<close> beside it.
\<close>

definition kept :: "grammar \<Rightarrow> c_info \<Rightarrow> pystr \<Rightarrow> pystr option \<Rightarrow> nat \<Rightarrow> bool" where
  "kept g ci s ecm k =
     ((Some [s ! k] \<noteq> ecm \<and> s ! k \<notin> multi_chars ci) \<or>
      (comments g = [(py ''/*'', py ''*/'')] \<and> s ! k \<in> multi_chars ci \<and> 0 < k \<and>
       (s ! k = star \<and> s ! (k - 1) \<noteq> slash \<and> next_char s k \<noteq> Some slash \<or>
        s ! k = slash \<and> s ! (k - 1) \<noteq> star \<and> next_char s k \<noteq> Some star)))"

lemma star_slash:
  "star = 42" "slash = 47" "py ''/*'' = [47, 42]" "py ''*/'' = [42, 47]" "py ''*'' = [42]" "py ''/'' = [47]"
  by (simp_all add: star_def slash_def py_def)

lemma in_comment_step:
  assumes m: "m < length s" and c: "kept g ci s ecm m"
  shows "scan is_numeric g ci s m (lexeme, True, ecm) =
     (if m + 1 < length s then scan is_numeric g ci s (m + 1) (lexeme @ [s ! m], True, ecm)
      else Yielded (Token (lexeme @ [s ! m])) (AtYieldToken m (lexeme @ [s ! m], True, ecm)))"
proof -
  have l: "lex_char (s ! m) (if m = 0 then None else Some (s ! (m - 1))) (next_char s m) lexeme True ecm g ci =
             Inr (lexeme @ [s ! m], True, ecm)"
  proof (cases "Some [s ! m] \<noteq> ecm \<and> s ! m \<notin> multi_chars ci")
    case True
    then show ?thesis
      by (simp add: lex_char_def lex_comment_def lex_singlechar_comments_def)
  next
    case False
    with c have k: "comments g = [([47, 42], [42, 47])]" "s ! m \<in> multi_chars ci" "0 < m"
      "s ! m = 42 \<and> s ! (m - 1) \<noteq> 47 \<and> next_char s m \<noteq> Some 47 \<or>
       s ! m = 47 \<and> s ! (m - 1) \<noteq> 42 \<and> next_char s m \<noteq> Some 42"
      by (simp_all add: kept_def star_slash)
    from k(4) show ?thesis
    proof
      assume "s ! m = 42 \<and> s ! (m - 1) \<noteq> 47 \<and> next_char s m \<noteq> Some 47"
      with k(1,2,3) show ?thesis
        by (simp add: lex_char_def lex_comment_def lex_multichar_comments_def allowed_pairs_def star_slash)
    next
      assume "s ! m = 47 \<and> s ! (m - 1) \<noteq> 42 \<and> next_char s m \<noteq> Some 42"
      with k(1,2,3) show ?thesis
        by (simp add: lex_char_def lex_comment_def lex_multichar_comments_def allowed_pairs_def star_slash)
    qed
  qed
  have "boundary is_numeric g s m (s ! m) (next_char s m) (lexeme @ [s ! m], True, ecm) =
          (if m + 1 < length s then Continue else Yield (lexeme @ [s ! m]))"
    by (simp add: boundary_def next_char_def)
  then show ?thesis
    by (simp add: scan_step[OF m prev_char_Inr[OF m] l])
qed

lemma comment_body:
  "i < m \<Longrightarrow> m \<le> j \<Longrightarrow> j \<le> length s \<Longrightarrow>
   \<forall>k. m \<le> k \<and> k < j \<longrightarrow> kept g ci s ecm k \<Longrightarrow>
   (j < length s \<longrightarrow>
      scan is_numeric g ci s m (slice s i m, True, ecm) = scan is_numeric g ci s j (slice s i j, True, ecm)) \<and>
   (j = length s \<and> m < j \<longrightarrow>
      scan is_numeric g ci s m (slice s i m, True, ecm) =
        Yielded (Token (drop i s)) (AtYieldToken (length s - 1) (drop i s, True, ecm)))"
proof (induction "j - m" arbitrary: m)
  case 0
  then show ?case by simp
next
  case (Suc d)
  then have mj: "m < j" and m: "m < length s" by simp_all
  from Suc.prems(4) mj have c: "kept g ci s ecm m"
    by simp
  from Suc.prems(1) m have sn: "slice s i m @ [s ! m] = slice s i (m + 1)"
    using slice_snoc[of i m s] by simp
  note step = in_comment_step[OF m c, of is_numeric "slice s i m", unfolded sn]
  show ?case
  proof (cases "m + 1 < length s")
    case True
    have d: "d = j - (m + 1)" using Suc.hyps(2) by simp
    have b: "\<forall>k. m + 1 \<le> k \<and> k < j \<longrightarrow> kept g ci s ecm k"
      using Suc.prems(4) by simp
    from Suc.prems(1) have i1: "i < m + 1" by simp
    from mj have m1: "m + 1 \<le> j" by simp
    note IH = Suc.hyps(1)[OF d i1 m1 Suc.prems(3) b]
    from True step have "scan is_numeric g ci s m (slice s i m, True, ecm) =
        scan is_numeric g ci s (m + 1) (slice s i (m + 1), True, ecm)"
      by simp
    with IH True show ?thesis by auto
  next
    case False
    with m mj Suc.prems(3) have j: "j = length s" "m + 1 = length s" by simp_all
    from False step have "scan is_numeric g ci s m (slice s i m, True, ecm) =
        Yielded (Token (slice s i (m + 1))) (AtYieldToken m (slice s i (m + 1), True, ecm))"
      by simp
    moreover from j have "slice s i (m + 1) = drop i s" by (simp add: slice_end)
    moreover from j have "m = length s - 1" by simp
    ultimately show ?thesis using j by simp
  qed
qed


lemma single_comments_fold:
  "set (single_comments (fold add_pair cmts d)) \<subseteq>
     set (single_comments d) \<union> (\<lambda>q. (hd (fst q), snd q)) ` set cmts"
proof (induction cmts arbitrary: d)
  case Nil
  show ?case by simp
next
  case (Cons q cmts)
  have "set (single_comments (add_pair q d)) \<subseteq> set (single_comments d) \<union> {(hd (fst q), snd q)}"
    by (auto simp: add_pair_def)
  with Cons.IH[of "add_pair q d"] show ?case
    by auto
qed

lemma single_in_table:
  assumes "map_of (single_comments (prepare_comment_tuples cmts)) c = Some v"
  shows "v \<in> set (map snd cmts)"
proof -
  from assms have "(c, v) \<in> set (single_comments (prepare_comment_tuples cmts))"
    by (rule map_of_SomeD)
  then have "(c, v) \<in> set (single_comments (fold add_pair cmts \<lparr>single_comments = [], multi_chars = {}, chars = {}\<rparr>))"
    by (simp add: prepare_comment_tuples_def Let_def)
  with single_comments_fold[of cmts "\<lparr>single_comments = [], multi_chars = {}, chars = {}\<rparr>"]
  show ?thesis by auto
qed

lemma single_open:
  assumes i: "i < length s"
    and o: "map_of (single_comments (prepare_comment_tuples (comments g))) (s ! i) = Some v"
    and nm: "s ! i \<notin> multi_chars (prepare_comment_tuples (comments g))"
  shows "scan is_numeric g (prepare_comment_tuples (comments g)) s i ([], False, ec) =
     (if i + 1 < length s
      then scan is_numeric g (prepare_comment_tuples (comments g)) s (i + 1) ([s ! i], True, Some v)
      else Yielded (Token [s ! i]) (AtYieldToken i ([s ! i], True, Some v)))"
proof -
  from o have k: "s ! i \<in> fst ` set (single_comments (prepare_comment_tuples (comments g)))"
    by (metis map_of_SomeD fst_conv image_eqI)
  then have "s ! i \<in> chars (prepare_comment_tuples (comments g))"
    by (simp add: prepare_comment_tuples_def Let_def)
  with k nm o have l: "lex_char (s ! i) (if i = 0 then None else Some (s ! (i - 1))) (next_char s i) [] False ec g
             (prepare_comment_tuples (comments g)) = Inr ([s ! i], True, Some v)"
    by (simp add: lex_char_def lex_comment_def lex_singlechar_comments_def)
  have "boundary is_numeric g s i (s ! i) (next_char s i) ([s ! i], True, Some v) =
          (if i + 1 < length s then Continue else Yield [s ! i])"
    by (simp add: boundary_def next_char_def)
  then show ?thesis
    by (simp add: scan_step[OF i prev_char_Inr[OF i] l])
qed

lemma endswith_last: "[e] \<in> set suffixes \<Longrightarrow> endswith (lexeme @ [e]) suffixes"
  by (auto simp: endswith_def list_ex_iff intro!: bexI[of _ "[e]"])

lemma single_close:
  assumes j: "j < length s" and e: "s ! j \<notin> multi_chars ci"
    and t: "[s ! j] \<in> set (map snd (comments g))"
    and n: "j + 1 < length s \<longrightarrow> is_numeric [s ! j, s ! (j + 1)] = Inr False"
  shows "scan is_numeric g ci s j (lexeme, True, Some [s ! j]) =
           Yielded (Token (lexeme @ [s ! j])) (AtYieldToken j (lexeme @ [s ! j], False, None))"
proof -
  have l: "lex_char (s ! j) (if j = 0 then None else Some (s ! (j - 1))) (next_char s j) lexeme True (Some [s ! j]) g ci =
             Inr (lexeme @ [s ! j], False, None)"
    using e by (simp add: lex_char_def lex_comment_def lex_singlechar_comments_def)
  have "boundary is_numeric g s j (s ! j) (next_char s j) (lexeme @ [s ! j], False, None) = Yield (lexeme @ [s ! j])"
    using n endswith_last[OF t, of lexeme] by (simp add: boundary_def next_char_def)
  then show ?thesis
    by (simp add: scan_step[OF j prev_char_Inr[OF j] l])
qed

lemma single_comment_terminated:
  assumes i: "i < length s"
    and o: "map_of (single_comments (prepare_comment_tuples (comments g))) (s ! i) = Some [e]"
    and nm: "s ! i \<notin> multi_chars (prepare_comment_tuples (comments g))"
    and ij: "i < j" and j: "j < length s"
    and body: "\<forall>k. i < k \<and> k < j \<longrightarrow> s ! k \<noteq> e \<and> s ! k \<notin> multi_chars (prepare_comment_tuples (comments g))"
    and sj: "s ! j = e" and em: "e \<notin> multi_chars (prepare_comment_tuples (comments g))"
    and n: "j + 1 < length s \<longrightarrow> is_numeric [e, s ! (j + 1)] = Inr False"
  shows "scan is_numeric g (prepare_comment_tuples (comments g)) s i ([], False, ec) =
           Yielded (Token (slice s i (j + 1))) (AtYieldToken j (slice s i (j + 1), False, None))"
proof -
  from ij j have i1: "i + 1 < length s" by simp
  have "scan is_numeric g (prepare_comment_tuples (comments g)) s i ([], False, ec) =
        scan is_numeric g (prepare_comment_tuples (comments g)) s (i + 1) (slice s i (i + 1), True, Some [e])"
    using single_open[OF i o nm, of is_numeric ec] i1 slice_one[OF i] by simp
  also have "\<dots> = scan is_numeric g (prepare_comment_tuples (comments g)) s j (slice s i j, True, Some [e])"
  proof -
    have b: "\<forall>k. i + 1 \<le> k \<and> k < j \<longrightarrow> kept g (prepare_comment_tuples (comments g)) s (Some [e]) k"
      using body by (simp add: kept_def)
    from ij have "i < i + 1" "i + 1 \<le> j" by simp_all
    from comment_body[OF this _ b, of is_numeric] j show ?thesis by simp
  qed
  also have "\<dots> = Yielded (Token (slice s i j @ [s ! j])) (AtYieldToken j (slice s i j @ [s ! j], False, None))"
    using single_close[OF j, of "prepare_comment_tuples (comments g)" g is_numeric "slice s i j"]
      single_in_table[OF o] em n sj by simp
  finally show ?thesis
    using slice_snoc[of i j s] ij j by simp
qed

lemma single_comment_unterminated:
  assumes i: "i < length s"
    and o: "map_of (single_comments (prepare_comment_tuples (comments g))) (s ! i) = Some [e]"
    and nm: "s ! i \<notin> multi_chars (prepare_comment_tuples (comments g))"
    and body: "\<forall>k. i < k \<and> k < length s \<longrightarrow> s ! k \<noteq> e \<and> s ! k \<notin> multi_chars (prepare_comment_tuples (comments g))"
  shows "scan is_numeric g (prepare_comment_tuples (comments g)) s i ([], False, ec) =
           Yielded (Token (drop i s)) (AtYieldToken (length s - 1) (drop i s, True, Some [e]))"
proof (cases "i + 1 < length s")
  case False
  with i have "drop i s = [s ! i]" "i = length s - 1"
    using slice_one[OF i] by (simp_all add: slice_def)
  with single_open[OF i o nm, of is_numeric ec] False show ?thesis by simp
next
  case True
  have "scan is_numeric g (prepare_comment_tuples (comments g)) s i ([], False, ec) =
        scan is_numeric g (prepare_comment_tuples (comments g)) s (i + 1) (slice s i (i + 1), True, Some [e])"
    using single_open[OF i o nm, of is_numeric ec] True slice_one[OF i] by simp
  also have "\<dots> = Yielded (Token (drop i s)) (AtYieldToken (length s - 1) (drop i s, True, Some [e]))"
  proof -
    have b: "\<forall>k. i + 1 \<le> k \<and> k < length s \<longrightarrow> kept g (prepare_comment_tuples (comments g)) s (Some [e]) k"
      using body by (simp add: kept_def)
    from True have "i < i + 1" "i + 1 \<le> length s" by simp_all
    from comment_body[OF this _ b, of is_numeric] True show ?thesis by simp
  qed
  finally show ?thesis .
qed


lemma endswith_close: "endswith (lexeme @ [42, 47]) [[42, 47]]"
  by (simp add: endswith_def)

lemma multichar_comment:
  assumes cm: "comments g = [(py ''/*'', py ''*/'')]"
    and ij: "i + 1 < j" and j: "j + 1 < length s"
    and si: "s ! i = slash" "s ! (i + 1) = star"
    and body: "\<forall>k. i + 1 < k \<and> k < j \<longrightarrow>
                 (s ! k = star \<longrightarrow> s ! (k - 1) \<noteq> slash \<and> s ! (k + 1) \<noteq> slash) \<and>
                 (s ! k = slash \<longrightarrow> s ! (k - 1) \<noteq> star \<and> s ! (k + 1) \<noteq> star)"
    and sj: "s ! j = star" "s ! (j + 1) = slash"
    and n: "is_numeric [star, slash] = Inr False"
  shows "scan is_numeric g (prepare_comment_tuples (comments g)) s i ([], False, None) =
           Yielded (Token (slice s i (j + 2))) (AtYieldToken j (slice s i (j + 2), False, None))"
proof -
  let ?ci = "\<lparr>single_comments = [], multi_chars = {47, 42}, chars = {47, 42}\<rparr>"
  have ci: "prepare_comment_tuples (comments g) = ?ci"
    by (simp add: cm star_slash ci_pvl)
  have cg: "comments g = [([47, 42], [42, 47])]"
    by (simp add: cm star_slash)
  from ij j have i: "i < length s" and i1: "i + 1 < length s" and i2: "i + 2 < length s"
    and jl: "j < length s" by simp_all
  have nA: "next_char s i = Some 42" and nB: "next_char s (i + 1) = Some (s ! (i + 2))"
    and nC: "next_char s j = Some 47"
    using i1 i2 j si sj by (simp_all add: next_char_def star_slash)
  have lA: "lex_char (s ! i) (if i = 0 then None else Some (s ! (i - 1))) (next_char s i) [] False None g ?ci =
              Inr ([], False, None)"
    using si by (simp add: nA lex_char_def lex_comment_def lex_multichar_comments_def allowed_pairs_def cg star_slash)
  have A: "scan is_numeric g ?ci s i ([], False, None) = scan is_numeric g ?ci s (i + 1) ([], False, None)"
    by (simp add: scan_step[OF i prev_char_Inr[OF i] lA] boundary_def)
  have pB: "prev_char s (i + 1) = Inr (Some 47)"
    using prev_char_Inr[OF i1] si by (simp add: star_slash)
  have lB: "lex_char (s ! (i + 1)) (Some 47) (next_char s (i + 1)) [] False None g ?ci = Inr ([47, 42], True, None)"
    using si by (simp add: lex_char_def lex_comment_def lex_multichar_comments_def allowed_pairs_def cg star_slash)
  have B: "scan is_numeric g ?ci s (i + 1) ([], False, None) = scan is_numeric g ?ci s (i + 2) ([47, 42], True, None)"
    using scan_step[OF i1 pB lB, of is_numeric] nB by (simp add: boundary_def)
  have s2: "slice s i (i + 2) = [47, 42]"
    using slice_snoc[of i "i + 1" s] slice_one[OF i] i1 si by (simp add: star_slash)
  have b: "\<forall>k. i + 2 \<le> k \<and> k < j \<longrightarrow> kept g ?ci s None k"
  proof (intro allI impI)
    fix k assume k: "i + 2 \<le> k \<and> k < j"
    with j have n: "next_char s k = Some (s ! (k + 1))"
      by (simp add: next_char_def)
    from k body have
      "(s ! k = star \<longrightarrow> s ! (k - 1) \<noteq> slash \<and> s ! (k + 1) \<noteq> slash) \<and>
       (s ! k = slash \<longrightarrow> s ! (k - 1) \<noteq> star \<and> s ! (k + 1) \<noteq> star)"
      by simp
    with k show "kept g ?ci s None k"
      unfolding kept_def n cm by (cases "s ! k = star"; cases "s ! k = slash") (auto simp add: star_slash)
  qed
  have "i < i + 2" "i + 2 \<le> j" "j \<le> length s"
    using ij jl by simp_all
  from comment_body[OF this b, of is_numeric] jl
  have Body: "scan is_numeric g ?ci s (i + 2) (slice s i (i + 2), True, None) =
              scan is_numeric g ?ci s j (slice s i j, True, None)"
    by simp
  have pj: "s ! (j - 1) \<noteq> 47"
  proof (cases "j = i + 2")
    case True
    with si show ?thesis by (simp add: star_slash)
  next
    case False
    with ij have r: "i + 1 < j - 1 \<and> j - 1 < j" by simp
    with body have "s ! (j - 1) = slash \<longrightarrow> s ! (j - 1 + 1) \<noteq> star" by blast
    with r sj have "s ! (j - 1) \<noteq> slash" by auto
    then show ?thesis by (simp add: star_slash)
  qed
  from ij have j0: "j \<noteq> 0" by simp
  have lC: "lex_char (s ! j) (if j = 0 then None else Some (s ! (j - 1))) (next_char s j) (slice s i j) True None g ?ci =
              Inr (slice s i j @ [42, 47], False, None)"
    using sj pj j0 by (simp add: nC lex_char_def lex_comment_def lex_multichar_comments_def allowed_pairs_def cg star_slash)
  have bC: "boundary is_numeric g s j (s ! j) (next_char s j) (slice s i j @ [42, 47], False, None) =
              Yield (slice s i j @ [42, 47])"
    using n sj endswith_close[of "slice s i j"] by (simp add: boundary_def nC cg star_slash)
  have C: "scan is_numeric g ?ci s j (slice s i j, True, None) =
             Yielded (Token (slice s i j @ [42, 47])) (AtYieldToken j (slice s i j @ [42, 47], False, None))"
    by (simp add: scan_step[OF jl prev_char_Inr[OF jl] lC] bC)
  have "slice s i (j + 1) = slice s i j @ [42]"
    using slice_snoc[of i j s] ij jl sj by (simp add: star_slash)
  moreover have "slice s i (j + 1 + 1) = slice s i (j + 1) @ [47]"
    using slice_snoc[of i "j + 1" s] ij j sj by (simp add: star_slash)
  ultimately have e: "slice s i j @ [42, 47] = slice s i (j + 2)"
    by (simp add: numeral_2_eq_2)
  note A
  also note B
  also have "scan is_numeric g ?ci s (i + 2) ([47, 42], True, None) =
             scan is_numeric g ?ci s (i + 2) (slice s i (i + 2), True, None)"
    by (simp only: s2)
  also note Body
  also note C
  finally show ?thesis
    by (simp only: ci e)
qed


text \<open>The tables of \<^verbatim>\<open>Omnigrammar\<close>, whose comment pairs are \<^verbatim>\<open>/* */\<close> and \<^verbatim>\<open>#\<close> to newline.\<close>

lemma ci_omni:
  "prepare_comment_tuples [([47, 42], [42, 47]), ([35], [10])] =
     \<lparr>single_comments = [(35, [10])], multi_chars = {47, 42}, chars = {35, 47, 42}\<rparr>"
  by (auto simp add: prepare_comment_tuples_def add_pair_def)

lemma omni_fields:
  "whitespace Omnigrammar = [[32], [9], [10], [13], [11], [12]]"
  "reserved_characters Omnigrammar =
     [[38], [60], [62], [39], [123], [125], [44], [91], [93], [61], [33], [35], [40], [41],
      [37], [43], [34], [59], [126], [124]]"
  "comments Omnigrammar = [([47, 42], [42, 47]), ([35], [10])]"
  by (simp_all add: Omnigrammar_def Let_def pvl_grammar_def py_def spacing_characters_def format_effectors_def)

lemma comment_examples:
  "(\<forall>u\<in>set (lookaheads (py ''There is a /* comment */'')). is_numeric u = Inr False)
     \<longrightarrow> list_lexer is_numeric (py ''There is a /* comment */'') pvl_grammar =
           Inr [Token (py ''There''), Token (py ''is''), Token (py ''a''), Token (py ''/* comment */'')]"
  "(\<forall>u\<in>set (lookaheads (py ''In/*the*/middle.'')). is_numeric u = Inr False)
     \<longrightarrow> list_lexer is_numeric (py ''In/*the*/middle.'') pvl_grammar =
           Inr [Token (py ''In''), Token (py ''/*the*/''), Token (py ''middle.'')]"
  "(\<forall>u\<in>set (lookaheads (py ''There is a # comment'')). is_numeric u = Inr False)
     \<longrightarrow> list_lexer is_numeric (py ''There is a # comment'') Omnigrammar =
           Inr [Token (py ''There''), Token (py ''is''), Token (py ''a''), Token (py ''# comment'')]"
  "(\<forall>u\<in>set (lookaheads (py ''# Leading '' @ [newline] @ py '' then '' @ [newline] @ py '' more'')).
       is_numeric u = Inr False)
     \<longrightarrow> list_lexer is_numeric (py ''# Leading '' @ [newline] @ py '' then '' @ [newline] @ py '' more'') Omnigrammar =
           Inr [Token (py ''# Leading '' @ [newline]), Token (py ''then''), Token (py ''more'')]"
  by (simp_all add: lex_defs ci_pvl pvl_fields ci_omni omni_fields newline_def scan.simps drain.simps)


text \<open>
  Where a comment is yielded whole.  Under a table that holds only \<^verbatim>\<open>/* */\<close>, a
  comment that opens at index \<open>i\<close> with an empty lexeme and closes at \<open>j\<close>, inside
  which no \<^verbatim>\<open>*\<close> stands beside a \<^verbatim>\<open>/\<close>, is yielded as the one token
  \<^verbatim>\<open>s[i:j+2]\<close>, both delimiters included, when the lookahead \<^verbatim>\<open>*/\<close> is not numeric.
  A comment of a single-character pair, none of whose characters belongs to a longer
  delimiter, is yielded as one token: up to and with its closing character when it is
  closed and the lookahead after it is not numeric, and from the opener to the end of
  the text when it is not closed.  The examples hold for every classification that
  finds no numeric lookahead in them.
\<close>

lemma comment_scan:
  "(comments g = [(py ''/*'', py ''*/'')] \<and> i + 1 < j \<and> j + 1 < length s \<and>
    s ! i = slash \<and> s ! (i + 1) = star \<and>
    (\<forall>k\<in>{i + 1<..<j}. (s ! k = star \<longrightarrow> s ! (k - 1) \<noteq> slash \<and> s ! (k + 1) \<noteq> slash) \<and>
                     (s ! k = slash \<longrightarrow> s ! (k - 1) \<noteq> star \<and> s ! (k + 1) \<noteq> star)) \<and>
    s ! j = star \<and> s ! (j + 1) = slash \<and> is_numeric [star, slash] = Inr False
    \<longrightarrow> scan is_numeric g (prepare_comment_tuples (comments g)) s i ([], False, None) =
          Yielded (Token (slice s i (j + 2))) (AtYieldToken j (slice s i (j + 2), False, None))) \<and>
   (i < length s \<and>
    map_of (single_comments (prepare_comment_tuples (comments g))) (s ! i) = Some [e] \<and>
    s ! i \<notin> multi_chars (prepare_comment_tuples (comments g)) \<and>
    i < j \<and> j < length s \<and>
    (\<forall>k\<in>{i<..<j}. s ! k \<noteq> e \<and> s ! k \<notin> multi_chars (prepare_comment_tuples (comments g))) \<and>
    s ! j = e \<and> e \<notin> multi_chars (prepare_comment_tuples (comments g)) \<and>
    (j + 1 < length s \<longrightarrow> is_numeric [e, s ! (j + 1)] = Inr False)
    \<longrightarrow> scan is_numeric g (prepare_comment_tuples (comments g)) s i ([], False, ec) =
          Yielded (Token (slice s i j @ [e])) (AtYieldToken j (slice s i j @ [e], False, None))) \<and>
   (i < length s \<and>
    map_of (single_comments (prepare_comment_tuples (comments g))) (s ! i) = Some [e] \<and>
    s ! i \<notin> multi_chars (prepare_comment_tuples (comments g)) \<and>
    (\<forall>k\<in>{i<..<length s}. s ! k \<noteq> e \<and> s ! k \<notin> multi_chars (prepare_comment_tuples (comments g)))
    \<longrightarrow> scan is_numeric g (prepare_comment_tuples (comments g)) s i ([], False, ec) =
          Yielded (Token (drop i s)) (AtYieldToken (length s - 1) (drop i s, True, Some [e]))) \<and>
   ((\<forall>u\<in>set (lookaheads (py ''There is a /* comment */'')). is_numeric u = Inr False)
     \<longrightarrow> list_lexer is_numeric (py ''There is a /* comment */'') pvl_grammar =
           Inr [Token (py ''There''), Token (py ''is''), Token (py ''a''), Token (py ''/* comment */'')]) \<and>
   ((\<forall>u\<in>set (lookaheads (py ''In/*the*/middle.'')). is_numeric u = Inr False)
     \<longrightarrow> list_lexer is_numeric (py ''In/*the*/middle.'') pvl_grammar =
           Inr [Token (py ''In''), Token (py ''/*the*/''), Token (py ''middle.'')]) \<and>
   ((\<forall>u\<in>set (lookaheads (py ''There is a # comment'')). is_numeric u = Inr False)
     \<longrightarrow> list_lexer is_numeric (py ''There is a # comment'') Omnigrammar =
           Inr [Token (py ''There''), Token (py ''is''), Token (py ''a''), Token (py ''# comment'')]) \<and>
   ((\<forall>u\<in>set (lookaheads (py ''# Leading '' @ [newline] @ py '' then '' @ [newline] @ py '' more'')).
       is_numeric u = Inr False)
     \<longrightarrow> list_lexer is_numeric (py ''# Leading '' @ [newline] @ py '' then '' @ [newline] @ py '' more'') Omnigrammar =
           Inr [Token (py ''# Leading '' @ [newline]), Token (py ''then''), Token (py ''more'')])"
proof (intro conjI)
  show "comments g = [(py ''/*'', py ''*/'')] \<and> i + 1 < j \<and> j + 1 < length s \<and>
    s ! i = slash \<and> s ! (i + 1) = star \<and>
    (\<forall>k\<in>{i + 1<..<j}. (s ! k = star \<longrightarrow> s ! (k - 1) \<noteq> slash \<and> s ! (k + 1) \<noteq> slash) \<and>
                     (s ! k = slash \<longrightarrow> s ! (k - 1) \<noteq> star \<and> s ! (k + 1) \<noteq> star)) \<and>
    s ! j = star \<and> s ! (j + 1) = slash \<and> is_numeric [star, slash] = Inr False
    \<longrightarrow> scan is_numeric g (prepare_comment_tuples (comments g)) s i ([], False, None) =
          Yielded (Token (slice s i (j + 2))) (AtYieldToken j (slice s i (j + 2), False, None))"
  proof
    assume a: "comments g = [(py ''/*'', py ''*/'')] \<and> i + 1 < j \<and> j + 1 < length s \<and>
      s ! i = slash \<and> s ! (i + 1) = star \<and>
      (\<forall>k\<in>{i + 1<..<j}. (s ! k = star \<longrightarrow> s ! (k - 1) \<noteq> slash \<and> s ! (k + 1) \<noteq> slash) \<and>
                     (s ! k = slash \<longrightarrow> s ! (k - 1) \<noteq> star \<and> s ! (k + 1) \<noteq> star)) \<and>
      s ! j = star \<and> s ! (j + 1) = slash \<and> is_numeric [star, slash] = Inr False"
    then have b: "\<forall>k. i + 1 < k \<and> k < j \<longrightarrow>
                 (s ! k = star \<longrightarrow> s ! (k - 1) \<noteq> slash \<and> s ! (k + 1) \<noteq> slash) \<and>
                 (s ! k = slash \<longrightarrow> s ! (k - 1) \<noteq> star \<and> s ! (k + 1) \<noteq> star)"
      by simp
    from a show "scan is_numeric g (prepare_comment_tuples (comments g)) s i ([], False, None) =
          Yielded (Token (slice s i (j + 2))) (AtYieldToken j (slice s i (j + 2), False, None))"
      by (intro multichar_comment[OF _ _ _ _ _ b]) simp_all
  qed
next
  show "i < length s \<and>
    map_of (single_comments (prepare_comment_tuples (comments g))) (s ! i) = Some [e] \<and>
    s ! i \<notin> multi_chars (prepare_comment_tuples (comments g)) \<and>
    i < j \<and> j < length s \<and>
    (\<forall>k\<in>{i<..<j}. s ! k \<noteq> e \<and> s ! k \<notin> multi_chars (prepare_comment_tuples (comments g))) \<and>
    s ! j = e \<and> e \<notin> multi_chars (prepare_comment_tuples (comments g)) \<and>
    (j + 1 < length s \<longrightarrow> is_numeric [e, s ! (j + 1)] = Inr False)
    \<longrightarrow> scan is_numeric g (prepare_comment_tuples (comments g)) s i ([], False, ec) =
          Yielded (Token (slice s i j @ [e])) (AtYieldToken j (slice s i j @ [e], False, None))"
  proof
    assume a: "i < length s \<and>
      map_of (single_comments (prepare_comment_tuples (comments g))) (s ! i) = Some [e] \<and>
      s ! i \<notin> multi_chars (prepare_comment_tuples (comments g)) \<and>
      i < j \<and> j < length s \<and>
      (\<forall>k\<in>{i<..<j}. s ! k \<noteq> e \<and> s ! k \<notin> multi_chars (prepare_comment_tuples (comments g))) \<and>
      s ! j = e \<and> e \<notin> multi_chars (prepare_comment_tuples (comments g)) \<and>
      (j + 1 < length s \<longrightarrow> is_numeric [e, s ! (j + 1)] = Inr False)"
    then have b: "\<forall>k. i < k \<and> k < j \<longrightarrow> s ! k \<noteq> e \<and> s ! k \<notin> multi_chars (prepare_comment_tuples (comments g))"
      by simp
    from a have "scan is_numeric g (prepare_comment_tuples (comments g)) s i ([], False, ec) =
           Yielded (Token (slice s i (j + 1))) (AtYieldToken j (slice s i (j + 1), False, None))"
      by (intro single_comment_terminated[OF _ _ _ _ _ b]) simp_all
    moreover from a have "slice s i (j + 1) = slice s i j @ [e]"
      using slice_snoc[of i j s] by simp
    ultimately show "scan is_numeric g (prepare_comment_tuples (comments g)) s i ([], False, ec) =
          Yielded (Token (slice s i j @ [e])) (AtYieldToken j (slice s i j @ [e], False, None))"
      by simp
  qed
next
  show "i < length s \<and>
    map_of (single_comments (prepare_comment_tuples (comments g))) (s ! i) = Some [e] \<and>
    s ! i \<notin> multi_chars (prepare_comment_tuples (comments g)) \<and>
    (\<forall>k\<in>{i<..<length s}. s ! k \<noteq> e \<and> s ! k \<notin> multi_chars (prepare_comment_tuples (comments g)))
    \<longrightarrow> scan is_numeric g (prepare_comment_tuples (comments g)) s i ([], False, ec) =
          Yielded (Token (drop i s)) (AtYieldToken (length s - 1) (drop i s, True, Some [e]))"
  proof
    assume a: "i < length s \<and>
      map_of (single_comments (prepare_comment_tuples (comments g))) (s ! i) = Some [e] \<and>
      s ! i \<notin> multi_chars (prepare_comment_tuples (comments g)) \<and>
      (\<forall>k\<in>{i<..<length s}. s ! k \<noteq> e \<and> s ! k \<notin> multi_chars (prepare_comment_tuples (comments g)))"
    then have b: "\<forall>k. i < k \<and> k < length s \<longrightarrow> s ! k \<noteq> e \<and> s ! k \<notin> multi_chars (prepare_comment_tuples (comments g))"
      by simp
    from a show "scan is_numeric g (prepare_comment_tuples (comments g)) s i ([], False, ec) =
          Yielded (Token (drop i s)) (AtYieldToken (length s - 1) (drop i s, True, Some [e]))"
      by (intro single_comment_unterminated[OF _ _ _ b]) simp_all
  qed
qed (rule comment_examples)+


text \<open>
  The comments of \<^verbatim>\<open>In/*the*/middle.\<close>, of \<^verbatim>\<open># Leading\<close> and of
  \<^verbatim>\<open>There is a # comment\<close>, under the classification modelled from the spec.
\<close>

lemma comment_scan_examples:
  "scan (is_numeric_spec pvl_grammar) pvl_grammar (prepare_comment_tuples (comments pvl_grammar))
     (py ''In/*the*/middle.'') 2 ([], False, None) =
     Yielded (Token (py ''/*the*/'')) (AtYieldToken 7 (py ''/*the*/'', False, None)) \<and>
   scan (is_numeric_spec Omnigrammar) Omnigrammar (prepare_comment_tuples (comments Omnigrammar))
     (py ''# Leading '' @ [newline] @ py '' then '' @ [newline] @ py '' more'') 0 ([], False, None) =
     Yielded (Token (py ''# Leading '' @ [newline])) (AtYieldToken 10 (py ''# Leading '' @ [newline], False, None)) \<and>
   scan (is_numeric_spec Omnigrammar) Omnigrammar (prepare_comment_tuples (comments Omnigrammar))
     (py ''There is a # comment'') 11 ([], False, None) =
     Yielded (Token (py ''# comment'')) (AtYieldToken 19 (py ''# comment'', True, Some [newline])) \<and>
   list_lexer (is_numeric_spec pvl_grammar) (py ''There is a /* comment */'') pvl_grammar =
     Inr [Token (py ''There''), Token (py ''is''), Token (py ''a''), Token (py ''/* comment */'')] \<and>
   list_lexer (is_numeric_spec pvl_grammar) (py ''In/*the*/middle.'') pvl_grammar =
     Inr [Token (py ''In''), Token (py ''/*the*/''), Token (py ''middle.'')] \<and>
   list_lexer (is_numeric_spec Omnigrammar) (py ''There is a # comment'') Omnigrammar =
     Inr [Token (py ''There''), Token (py ''is''), Token (py ''a''), Token (py ''# comment'')] \<and>
   list_lexer (is_numeric_spec Omnigrammar)
     (py ''# Leading '' @ [newline] @ py '' then '' @ [newline] @ py '' more'') Omnigrammar =
     Inr [Token (py ''# Leading '' @ [newline]), Token (py ''then''), Token (py ''more'')]"
proof -
  let ?s1 = "py ''In/*the*/middle.''"
  let ?s2 = "py ''# Leading '' @ [newline] @ py '' then '' @ [newline] @ py '' more''"
  let ?s3 = "py ''There is a # comment''"
  have h1: "comments pvl_grammar = [(py ''/*'', py ''*/'')] \<and> 2 + 1 < (7::nat) \<and> 7 + 1 < length ?s1 \<and>
    ?s1 ! 2 = slash \<and> ?s1 ! (2 + 1) = star \<and>
    (\<forall>k\<in>{2 + 1<..<7}. (?s1 ! k = star \<longrightarrow> ?s1 ! (k - 1) \<noteq> slash \<and> ?s1 ! (k + 1) \<noteq> slash) \<and>
                     (?s1 ! k = slash \<longrightarrow> ?s1 ! (k - 1) \<noteq> star \<and> ?s1 ! (k + 1) \<noteq> star)) \<and>
    ?s1 ! 7 = star \<and> ?s1 ! (7 + 1) = slash \<and> is_numeric_spec pvl_grammar [star, slash] = Inr False"
    by code_simp
  have e1: "slice ?s1 2 (7 + 2) = py ''/*the*/''"
    by code_simp
  have h2: "0 < length ?s2 \<and>
    map_of (single_comments (prepare_comment_tuples (comments Omnigrammar))) (?s2 ! 0) = Some [newline] \<and>
    ?s2 ! 0 \<notin> multi_chars (prepare_comment_tuples (comments Omnigrammar)) \<and>
    0 < (10::nat) \<and> 10 < length ?s2 \<and>
    (\<forall>k\<in>{0<..<10}. ?s2 ! k \<noteq> newline \<and> ?s2 ! k \<notin> multi_chars (prepare_comment_tuples (comments Omnigrammar))) \<and>
    ?s2 ! 10 = newline \<and> newline \<notin> multi_chars (prepare_comment_tuples (comments Omnigrammar)) \<and>
    (10 + 1 < length ?s2 \<longrightarrow> is_numeric_spec Omnigrammar [newline, ?s2 ! (10 + 1)] = Inr False)"
    by code_simp
  have e2: "slice ?s2 0 10 @ [newline] = py ''# Leading '' @ [newline]"
    by code_simp
  have h3: "11 < length ?s3 \<and>
    map_of (single_comments (prepare_comment_tuples (comments Omnigrammar))) (?s3 ! 11) = Some [newline] \<and>
    ?s3 ! 11 \<notin> multi_chars (prepare_comment_tuples (comments Omnigrammar)) \<and>
    (\<forall>k\<in>{11<..<length ?s3}. ?s3 ! k \<noteq> newline \<and> ?s3 ! k \<notin> multi_chars (prepare_comment_tuples (comments Omnigrammar)))"
    by code_simp
  have e3: "drop 11 ?s3 = py ''# comment''" "length ?s3 - 1 = 19"
    by code_simp+
  have l1: "\<forall>u\<in>set (lookaheads (py ''There is a /* comment */'')). is_numeric_spec pvl_grammar u = Inr False"
    by code_simp
  have l2: "\<forall>u\<in>set (lookaheads ?s1). is_numeric_spec pvl_grammar u = Inr False"
    by code_simp
  have l3: "\<forall>u\<in>set (lookaheads ?s3). is_numeric_spec Omnigrammar u = Inr False"
    by code_simp
  have l4: "\<forall>u\<in>set (lookaheads ?s2). is_numeric_spec Omnigrammar u = Inr False"
    by code_simp
  note T1 = comment_scan[where g = pvl_grammar and is_numeric = "is_numeric_spec pvl_grammar"
      and s = ?s1 and i = 2 and j = 7]
  note T2 = comment_scan[where g = Omnigrammar and is_numeric = "is_numeric_spec Omnigrammar"
      and s = ?s2 and i = 0 and j = 10 and e = newline and ec = None]
  note T3 = comment_scan[where g = Omnigrammar and is_numeric = "is_numeric_spec Omnigrammar"
      and s = ?s3 and i = 11 and e = newline and ec = None]
  from T1 h1 have "scan (is_numeric_spec pvl_grammar) pvl_grammar (prepare_comment_tuples (comments pvl_grammar))
     ?s1 2 ([], False, None) =
     Yielded (Token (slice ?s1 2 (7 + 2))) (AtYieldToken 7 (slice ?s1 2 (7 + 2), False, None))"
    by blast
  then have a: "scan (is_numeric_spec pvl_grammar) pvl_grammar (prepare_comment_tuples (comments pvl_grammar))
     ?s1 2 ([], False, None) =
     Yielded (Token (py ''/*the*/'')) (AtYieldToken 7 (py ''/*the*/'', False, None))"
    by (simp only: e1)
  from T2 h2 have "scan (is_numeric_spec Omnigrammar) Omnigrammar (prepare_comment_tuples (comments Omnigrammar))
     ?s2 0 ([], False, None) =
     Yielded (Token (slice ?s2 0 10 @ [newline])) (AtYieldToken 10 (slice ?s2 0 10 @ [newline], False, None))"
    by blast
  then have b: "scan (is_numeric_spec Omnigrammar) Omnigrammar (prepare_comment_tuples (comments Omnigrammar))
     ?s2 0 ([], False, None) =
     Yielded (Token (py ''# Leading '' @ [newline])) (AtYieldToken 10 (py ''# Leading '' @ [newline], False, None))"
    by (simp only: e2)
  from T3 h3 have "scan (is_numeric_spec Omnigrammar) Omnigrammar (prepare_comment_tuples (comments Omnigrammar))
     ?s3 11 ([], False, None) =
     Yielded (Token (drop 11 ?s3)) (AtYieldToken (length ?s3 - 1) (drop 11 ?s3, True, Some [newline]))"
    by blast
  then have c: "scan (is_numeric_spec Omnigrammar) Omnigrammar (prepare_comment_tuples (comments Omnigrammar))
     ?s3 11 ([], False, None) =
     Yielded (Token (py ''# comment'')) (AtYieldToken 19 (py ''# comment'', True, Some [newline]))"
    by (simp only: e3)
  from T1 l1 l2 l3 l4 have d: "list_lexer (is_numeric_spec pvl_grammar) (py ''There is a /* comment */'') pvl_grammar =
     Inr [Token (py ''There''), Token (py ''is''), Token (py ''a''), Token (py ''/* comment */'')]"
    "list_lexer (is_numeric_spec pvl_grammar) (py ''In/*the*/middle.'') pvl_grammar =
     Inr [Token (py ''In''), Token (py ''/*the*/''), Token (py ''middle.'')]"
    by blast+
  from T2 l3 l4 have f: "list_lexer (is_numeric_spec Omnigrammar) (py ''There is a # comment'') Omnigrammar =
     Inr [Token (py ''There''), Token (py ''is''), Token (py ''a''), Token (py ''# comment'')]"
    "list_lexer (is_numeric_spec Omnigrammar)
     (py ''# Leading '' @ [newline] @ py '' then '' @ [newline] @ py '' more'') Omnigrammar =
     Inr [Token (py ''# Leading '' @ [newline]), Token (py ''then''), Token (py ''more'')]"
    by blast+
  from a b c d f show ?thesis by (intro conjI)
qed

text \<open>
  C2: every comment should be yielded as one token that holds both of its delimiters
  verbatim.  With the base grammar the handler of \<^verbatim>\<open>/\<close> drops a \<^verbatim>\<open>/\<close> that stands
  beside a \<^verbatim>\<open>*\<close>, and the handler of \<^verbatim>\<open>*\<close> opens a comment at a \<^verbatim>\<open>*\<close> that
  follows a \<^verbatim>\<open>/\<close> before it looks for the closer: the comment \<^verbatim>\<open>/*/ a */\<close> is
  yielded as \<^verbatim>\<open>/* a */\<close> (or a \<^verbatim>\<open>LexerError\<close> is raised, when the classification of
  \<^verbatim>\<open>*/\<close> raises), and the comment \<^verbatim>\<open>/* a/*/\<close> of \<^verbatim>\<open>/* a/*/ k = v\<close> is not
  closed: the one token \<^verbatim>\<open>/* a/* k = v\<close> is yielded.  Under \<^verbatim>\<open>Omnigrammar\<close>, whose
  table holds \<^verbatim>\<open>/* */\<close> and \<^verbatim>\<open>#\<close> to newline, the lexer hands the whole table to
  \<^verbatim>\<open>lex_multichar_comments\<close> at every \<^verbatim>\<open>/\<close> and \<^verbatim>\<open>*\<close>, which refuses it: the
  comments \<^verbatim>\<open># a/b\<close> and \<^verbatim>\<open>/* c */\<close> are not yielded, the lexer raises
  \<^verbatim>\<open>NotImplementedError\<close>.  All of this holds for every classification.
\<close>

theorem comment_token_not_verbatim:
  "list_lexer is_numeric (py ''/*/ a */'') pvl_grammar =
     (case is_numeric (py ''*/'') of
        Inl m \<Rightarrow> Inl (LexerErr (LexerError m (py ''/*/ a */'') (- 1)))
      | Inr b \<Rightarrow> Inr [Token (py ''/* a */'')]) \<and>
   list_lexer is_numeric (py ''/* a/*/ k = v'') pvl_grammar = Inr [Token (py ''/* a/* k = v'')] \<and>
   list_lexer is_numeric (py ''# a/b'') Omnigrammar = Inl NotImplementedError \<and>
   list_lexer is_numeric (py ''/* c */'') Omnigrammar = Inl NotImplementedError"
proof (intro conjI)
  show "list_lexer is_numeric (py ''/*/ a */'') pvl_grammar =
     (case is_numeric (py ''*/'') of
        Inl m \<Rightarrow> Inl (LexerErr (LexerError m (py ''/*/ a */'') (- 1)))
      | Inr b \<Rightarrow> Inr [Token (py ''/* a */'')])"
    by (cases "is_numeric [42, 47]")
      (simp_all add: lex_defs ci_pvl pvl_fields scan.simps drain.simps)
  show "list_lexer is_numeric (py ''/* a/*/ k = v'') pvl_grammar = Inr [Token (py ''/* a/* k = v'')]"
    by (simp add: lex_defs ci_pvl pvl_fields scan.simps drain.simps)
  show "list_lexer is_numeric (py ''# a/b'') Omnigrammar = Inl NotImplementedError"
    by (simp add: lex_defs ci_omni omni_fields scan.simps drain.simps)
  show "list_lexer is_numeric (py ''/* c */'') Omnigrammar = Inl NotImplementedError"
    by (simp add: lex_defs ci_omni omni_fields scan.simps drain.simps)
qed

end
